theory Spec2Isabelle
  imports Main
begin

section \<open>JavaScript values and string helpers\<close>

text \<open>
  A thrown JavaScript \<open>Error\<close> is a value carrying its message; a call that may throw
  returns \<open>error + 'a\<close> with \<open>Inl\<close> for the throw (a rejected promise is the same
  thing for an awaited call).
\<close>

datatype error = Error (message: string)

text \<open>\<open>String.prototype.trim\<close> on the ASCII white space characters.\<close>

definition js_whitespace :: "char \<Rightarrow> bool" where
  "js_whitespace c =
     (c = CHR '' '' \<or> c = CHR 0x09 \<or> c = CHR 0x0A \<or> c = CHR 0x0B \<or> c = CHR 0x0C \<or> c = CHR 0x0D)"

definition js_trim :: "string \<Rightarrow> string" where
  "js_trim s = rev (dropWhile js_whitespace (rev (dropWhile js_whitespace s)))"

fun starts_with :: "string \<Rightarrow> string \<Rightarrow> bool" where
  "starts_with s [] = True"
| "starts_with [] (c # cs) = False"
| "starts_with (x # xs) (c # cs) = (x = c \<and> starts_with xs cs)"

text \<open>\<open>String.prototype.includes\<close>: the needle occurs as a contiguous substring.\<close>

fun js_includes :: "string \<Rightarrow> string \<Rightarrow> bool" where
  "js_includes [] sub = (sub = [])"
| "js_includes (c # cs) sub = (starts_with (c # cs) sub \<or> js_includes cs sub)"

text \<open>\<open>s.split(' ')[0]\<close>: the text before the first space (all of \<open>s\<close> when it has none).\<close>

definition split_first :: "string \<Rightarrow> string" where
  "split_first s = takeWhile (\<lambda>c. c \<noteq> CHR '' '') s"

text \<open>
  \<open>Array.prototype.slice(0, end)\<close> for an integral \<open>end\<close>: a negative \<open>end\<close> counts from
  the end of the array.
\<close>

definition js_slice0 :: "'a list \<Rightarrow> int \<Rightarrow> 'a list" where
  "js_slice0 xs e =
     (if e < 0 then take (nat (int (length xs) + e)) xs else take (nat e) xs)"

section \<open>Data model\<close>

text \<open>\<open>PhotoInfo\<close> of \<open>BaseSource.ts\<close> (the optional metadata fields are not read by the engine).\<close>

record PhotoInfo =
  photo_id :: string
  photo_name :: string
  photo_path :: string

text \<open>\<open>ProcessedImage\<close> of the image processor.\<close>

record ProcessedImage =
  out_path :: string
  out_format :: string
  out_size :: nat

datatype sync_mode = Mirror | AddOnly

text \<open>
  \<open>SyncMapping\<close>: a row of \<open>sync_mappings\<close>. \<open>maxPhotos\<close> is an optional number; the
  column is an INTEGER and no route validates it, so it is any integer or absent.
\<close>

record SyncMapping =
  mapping_id :: string
  sourceId :: string
  deviceId :: string
  syncMode :: sync_mode
  maxPhotos :: "int option"
  schedule :: "string option"
  isActive :: bool

datatype source_type = LocalFolder | GooglePhotos | GoogleDrive

record SourceRecord =
  source_id :: string
  source_kind :: source_type

record DeviceRecord =
  device_id :: string
  serial :: string
  base_path :: string

text \<open>
  \<open>SyncedPhoto\<close>: a row of \<open>synced_photos\<close>, the ledger. The primary key is a UUID in
  the source; here it is a number drawn from a counter.
\<close>

record SyncedPhoto =
  row_id :: nat
  row_mappingId :: string
  sourcePhotoId :: string
  sourcePath :: string
  devicePath :: string
  fileHash :: string
  fileSize :: nat

record SyncResult =
  mappingId :: string
  success :: bool
  photosAdded :: nat
  photosRemoved :: nat
  photosSkipped :: nat
  errors :: "string list"

record PushResult =
  push_success :: bool
  push_devicePath :: string
  push_error :: "string option"

section \<open>The world the engine acts on\<close>

text \<open>
  The commands \<open>AdbService\<close> sends through \<open>shell\<close>:
  \<^verbatim>\<open>md5sum "p" 2>/dev/null\<close>, \<^verbatim>\<open>rm -f "p"\<close> and \<^verbatim>\<open>mkdir -p "p"\<close>.
\<close>

datatype command = Md5sum string | RmF string | MkdirP string

text \<open>
  How \<open>device.push\<close> can go wrong: the call itself throws (caught by \<open>pushFile\<close>), or the
  transfer emits \<open>error\<close> later (the promise \<open>pushFile\<close> returned is rejected).
\<close>

datatype push_fault = NoFault | ConnectFault error | TransferFault error

text \<open>
  The mutable state: the \<open>synced_photos\<close> table, the id generator, the files of each
  device (serial, then path, to the MD5 digest of the content), the local files under
  \<open>PHOTOS_PATH\<close>, and whether \<open>sources.last_sync_at\<close> was written.
\<close>

record world =
  synced_photos :: "SyncedPhoto list"
  next_row_id :: nat
  device_files :: "string \<Rightarrow> string \<rightharpoonup> string"
  temp_files :: "string list"
  last_sync_written :: bool

text \<open>
  What a run reads and cannot control: the configuration tables, the collaborators
  (source, image processor) and every fault the transport, the file system and the
  database can raise. Each fault is a function of the call's arguments. The reads of the
  database (\<open>getMapping\<close>, \<open>getSource\<close>, \<open>getDevice\<close>, \<open>getSyncedPhotos\<close>) do not fail;
  its writes can. \<open>file_md5\<close> is the MD5 digest of the bytes of a local file, the one
  \<open>md5sum\<close> prints for the same bytes on the device.
\<close>

record env =
  sync_mappings :: "SyncMapping list"
  sources :: "SourceRecord list"
  devices :: "DeviceRecord list"
  PHOTOS_PATH :: string
  mkdir_fault :: "string \<Rightarrow> error option"
  shell_fault :: "string \<Rightarrow> command \<Rightarrow> error option"
  push_faults :: "string \<Rightarrow> string \<Rightarrow> string \<Rightarrow> push_fault"
  source_photos :: "error + PhotoInfo list"
  source_download :: "PhotoInfo \<Rightarrow> string \<Rightarrow> error + string"
  process_result :: "string \<Rightarrow> error + ProcessedImage"
  read_fault :: "string \<Rightarrow> error option"
  file_md5 :: "string \<Rightarrow> string"
  unlink_fault :: "string \<Rightarrow> bool"
  rm_fault :: "string \<Rightarrow> bool"
  insert_fault :: "string \<Rightarrow> error option"
  delete_fault :: "nat \<Rightarrow> error option"
  update_fault :: "error option"

section \<open>AdbService\<close>

text \<open>
  What the device prints for a command and what the command does to its files.
  \<open>md5sum\<close> prints the digest, two spaces and the path; for a missing file it prints
  to stderr only, which the command line discards. Directories are not kept track of:
  \<open>mkdir -p\<close> changes nothing here.
\<close>

definition device_output :: "world \<Rightarrow> string \<Rightarrow> command \<Rightarrow> string" where
  "device_output w ser cmd =
     (case cmd of
        Md5sum p \<Rightarrow> (case device_files w ser p of Some h \<Rightarrow> h @ ''  '' @ p | None \<Rightarrow> [])
      | RmF p \<Rightarrow> []
      | MkdirP p \<Rightarrow> [])"

definition device_effect :: "string \<Rightarrow> command \<Rightarrow> world \<Rightarrow> world" where
  "device_effect ser cmd w =
     (case cmd of
        RmF p \<Rightarrow> w\<lparr>device_files := (device_files w)(ser := (device_files w ser)(p := None))\<rparr>
      | Md5sum p \<Rightarrow> w
      | MkdirP p \<Rightarrow> w)"

text \<open>\<open>AdbService.shell\<close>: rethrows a transport error, otherwise the trimmed output.\<close>

definition shell :: "env \<Rightarrow> string \<Rightarrow> command \<Rightarrow> world \<Rightarrow> error + (string \<times> world)" where
  "shell e ser cmd w =
     (case shell_fault e ser cmd of
        Some err \<Rightarrow> Inl err
      | None \<Rightarrow> Inr (js_trim (device_output w ser cmd), device_effect ser cmd w))"

text \<open>
  \<open>AdbService.getFileHash\<close>:
  \<^verbatim>\<open>try { output = await shell(md5sum ...);
        if (!output || output.includes('No such file')) return null;
        return output.split(' ')[0]; } catch { return null; }\<close>
\<close>

definition getFileHash :: "env \<Rightarrow> string \<Rightarrow> string \<Rightarrow> world \<Rightarrow> error + string option" where
  "getFileHash e ser p w =
     (case shell e ser (Md5sum p) w of
        Inl err \<Rightarrow> Inr None
      | Inr (output, w') \<Rightarrow>
          if output = [] \<or> js_includes output ''No such file'' then Inr None
          else Inr (Some (split_first output)))"

text \<open>
  \<open>AdbService.deleteFile\<close>: \<open>true\<close> when the \<open>rm -f\<close> went through, \<open>false\<close> when the
  shell threw; it never throws itself.
\<close>

definition deleteFile :: "env \<Rightarrow> string \<Rightarrow> string \<Rightarrow> world \<Rightarrow> error + (bool \<times> world)" where
  "deleteFile e ser p w =
     (case shell e ser (RmF p) w of
        Inl err \<Rightarrow> Inr (False, w)
      | Inr (output, w') \<Rightarrow> Inr (True, w'))"

text \<open>\<open>AdbService.ensureDirectory\<close>: the shell's error propagates.\<close>

definition ensureDirectory :: "env \<Rightarrow> string \<Rightarrow> string \<Rightarrow> world \<Rightarrow> error + world" where
  "ensureDirectory e ser p w =
     (case shell e ser (MkdirP p) w of
        Inl err \<Rightarrow> Inl err
      | Inr (output, w') \<Rightarrow> Inr w')"

text \<open>
  \<open>AdbService.pushFile\<close>: a transfer that ends writes the local file's content to the
  device; a throw of \<open>device.push\<close> becomes a result with \<open>success = false\<close>; an
  \<open>error\<close> event of the transfer rejects. A transfer that fails is taken to leave no
  file behind. \<open>bytesTransferred\<close> is not read by the engine and left out.
\<close>

definition pushFile :: "env \<Rightarrow> string \<Rightarrow> string \<Rightarrow> string \<Rightarrow> world \<Rightarrow> error + (PushResult \<times> world)" where
  "pushFile e ser localPath p w =
     (case push_faults e ser localPath p of
        NoFault \<Rightarrow>
          Inr (\<lparr>push_success = True, push_devicePath = p, push_error = None\<rparr>,
               w\<lparr>device_files := (device_files w)(ser := (device_files w ser)(p \<mapsto> file_md5 e localPath))\<rparr>)
      | ConnectFault err \<Rightarrow>
          Inr (\<lparr>push_success = False, push_devicePath = p, push_error = Some (message err)\<rparr>, w)
      | TransferFault err \<Rightarrow> Inl err)"

section \<open>Collaborators: source, image processor, local files\<close>

definition add_file :: "string \<Rightarrow> string list \<Rightarrow> string list" where
  "add_file p fs = (if p \<in> set fs then fs else fs @ [p])"

text \<open>
  \<open>source.downloadPhoto(photo, tempDir)\<close>: writes a local file and returns its path; a
  download that throws is taken to leave no file behind.
\<close>

definition downloadPhoto :: "env \<Rightarrow> PhotoInfo \<Rightarrow> string \<Rightarrow> world \<Rightarrow> error + (string \<times> world)" where
  "downloadPhoto e photo tempDir w =
     (case source_download e photo tempDir of
        Inl err \<Rightarrow> Inl err
      | Inr p \<Rightarrow> Inr (p, w\<lparr>temp_files := add_file p (temp_files w)\<rparr>))"

text \<open>\<open>imageProcessor.processImage(path, options)\<close>: writes the processed file.\<close>

definition processImage :: "env \<Rightarrow> string \<Rightarrow> world \<Rightarrow> error + (ProcessedImage \<times> world)" where
  "processImage e p w =
     (case process_result e p of
        Inl err \<Rightarrow> Inl err
      | Inr processed \<Rightarrow> Inr (processed, w\<lparr>temp_files := add_file (out_path processed) (temp_files w)\<rparr>))"

text \<open>\<open>imageProcessor.cleanup(path)\<close>: \<open>unlink\<close>, with errors ignored.\<close>

definition cleanup :: "env \<Rightarrow> string \<Rightarrow> world \<Rightarrow> world" where
  "cleanup e p w =
     (if unlink_fault e p then w else w\<lparr>temp_files := removeAll p (temp_files w)\<rparr>)"

text \<open>\<open>SyncEngine.computeHash\<close>: the MD5 digest of a local file; a stream error rejects.\<close>

definition computeHash :: "env \<Rightarrow> string \<Rightarrow> error + string" where
  "computeHash e p = (case read_fault e p of Some err \<Rightarrow> Inl err | None \<Rightarrow> Inr (file_md5 e p))"

text \<open>\<open>createSource\<close>: only \<open>local_folder\<close> and \<open>google_photos\<close> register a factory.\<close>

definition createSource :: "SourceRecord \<Rightarrow> error + unit" where
  "createSource r =
     (if source_kind r = GoogleDrive then Inl (Error ''Unknown source type: google_drive'')
      else Inr ())"

text \<open>\<open>source.updateLastSync()\<close>: one UPDATE on \<open>sources\<close>.\<close>

definition updateLastSync :: "env \<Rightarrow> world \<Rightarrow> error + world" where
  "updateLastSync e w =
     (case update_fault e of Some err \<Rightarrow> Inl err | None \<Rightarrow> Inr (w\<lparr>last_sync_written := True\<rparr>))"

text \<open>
  \<^verbatim>\<open>try { await rm(tempDir, { recursive: true, force: true }) } catch { }\<close>:
  the directory and all below it go, unless \<open>rm\<close> fails, which is ignored.
\<close>

definition under_dir :: "string \<Rightarrow> string \<Rightarrow> bool" where
  "under_dir dir f = (f = dir \<or> starts_with f (dir @ ''/''))"

definition rm_tempDir :: "env \<Rightarrow> string \<Rightarrow> world \<Rightarrow> world" where
  "rm_tempDir e tempDir w =
     (if rm_fault e tempDir then w
      else w\<lparr>temp_files := filter (\<lambda>f. \<not> under_dir tempDir f) (temp_files w)\<rparr>)"

section \<open>SyncEngine\<close>

definition getMapping :: "env \<Rightarrow> string \<Rightarrow> SyncMapping option" where
  "getMapping e i = find (\<lambda>m. mapping_id m = i) (sync_mappings e)"

definition getSource :: "env \<Rightarrow> string \<Rightarrow> SourceRecord option" where
  "getSource e i = find (\<lambda>s. source_id s = i) (sources e)"

definition getDevice :: "env \<Rightarrow> string \<Rightarrow> DeviceRecord option" where
  "getDevice e i = find (\<lambda>d. device_id d = i) (devices e)"

text \<open>\<open>SELECT * FROM synced_photos WHERE mapping_id = ?\<close>\<close>

definition getSyncedPhotos :: "string \<Rightarrow> world \<Rightarrow> SyncedPhoto list" where
  "getSyncedPhotos mid w = filter (\<lambda>r. row_mappingId r = mid) (synced_photos w)"

text \<open>
  \<open>recordSyncedPhoto\<close>: \<open>INSERT OR REPLACE\<close> with a generated id. The table has the
  primary key \<open>id\<close> and \<open>UNIQUE(mapping_id, source_photo_id)\<close>: a row in conflict with
  the new one on either is deleted first.
\<close>

definition recordSyncedPhoto ::
  "env \<Rightarrow> string \<Rightarrow> string \<Rightarrow> string \<Rightarrow> string \<Rightarrow> string \<Rightarrow> nat \<Rightarrow> world \<Rightarrow> error + world" where
  "recordSyncedPhoto e mid pid spath dpath h sz w =
     (case insert_fault e pid of
        Some err \<Rightarrow> Inl err
      | None \<Rightarrow>
          Inr (w\<lparr>synced_photos :=
                   filter (\<lambda>r. row_id r \<noteq> next_row_id w \<and> \<not> (row_mappingId r = mid \<and> sourcePhotoId r = pid))
                     (synced_photos w)
                   @ [\<lparr>row_id = next_row_id w, row_mappingId = mid, sourcePhotoId = pid,
                       sourcePath = spath, devicePath = dpath, fileHash = h, fileSize = sz\<rparr>],
                 next_row_id := Suc (next_row_id w)\<rparr>))"

text \<open>\<open>DELETE FROM synced_photos WHERE id = ?\<close>\<close>

definition deleteSyncedPhoto :: "env \<Rightarrow> nat \<Rightarrow> world \<Rightarrow> error + world" where
  "deleteSyncedPhoto e i w =
     (case delete_fault e i of
        Some err \<Rightarrow> Inl err
      | None \<Rightarrow> Inr (w\<lparr>synced_photos := filter (\<lambda>r. row_id r \<noteq> i) (synced_photos w)\<rparr>))"

text \<open>
  \<^verbatim>\<open>mapping.maxPhotos ? sourcePhotos.slice(0, mapping.maxPhotos) : sourcePhotos\<close>:
  an absent value and 0 are falsy.
\<close>

definition photosToSync :: "SyncMapping \<Rightarrow> PhotoInfo list \<Rightarrow> PhotoInfo list" where
  "photosToSync mapping sourcePhotos =
     (case maxPhotos mapping of
        None \<Rightarrow> sourcePhotos
      | Some n \<Rightarrow> if n \<noteq> 0 then js_slice0 sourcePhotos n else sourcePhotos)"

definition remote_path :: "DeviceRecord \<Rightarrow> string \<Rightarrow> string \<Rightarrow> string" where
  "remote_path device h fmt = base_path device @ ''/'' @ (h @ ''.'' @ fmt)"

text \<open>
  The body of the \<open>try\<close> of one iteration of \<^verbatim>\<open>for (const photo of photosToSync)\<close>.
  A throw carries the world as it was when thrown.
\<close>

definition try_photo ::
  "env \<Rightarrow> DeviceRecord \<Rightarrow> string \<Rightarrow> string \<Rightarrow> string list \<Rightarrow> PhotoInfo \<Rightarrow> SyncResult \<Rightarrow> world
   \<Rightarrow> (error \<times> world) + (SyncResult \<times> world)" where
  "try_photo e device mid tempDir syncedPhotoIds photo result w =
     (if photo_id photo \<in> set syncedPhotoIds
      then Inr (result\<lparr>photosSkipped := photosSkipped result + 1\<rparr>, w)
      else
       (case downloadPhoto e photo tempDir w of
          Inl err \<Rightarrow> Inl (err, w)
        | Inr (downloadedPath, w1) \<Rightarrow>
       (case processImage e downloadedPath w1 of
          Inl err \<Rightarrow> Inl (err, w1)
        | Inr (processed, w2) \<Rightarrow>
       (case computeHash e (out_path processed) of
          Inl err \<Rightarrow> Inl (err, w2)
        | Inr h \<Rightarrow>
       (case getFileHash e (serial device) (remote_path device h (out_format processed)) w2 of
          Inl err \<Rightarrow> Inl (err, w2)
        | Inr existingHash \<Rightarrow>
            if existingHash = Some h
            then Inr (result\<lparr>photosSkipped := photosSkipped result + 1\<rparr>,
                      cleanup e (out_path processed) (cleanup e downloadedPath w2))
            else
             (case pushFile e (serial device) (out_path processed)
                     (remote_path device h (out_format processed)) w2 of
                Inl err \<Rightarrow> Inl (err, w2)
              | Inr (pushResult, w3) \<Rightarrow>
                  if push_success pushResult
                  then
                   (case recordSyncedPhoto e mid (photo_id photo) (photo_path photo)
                           (remote_path device h (out_format processed)) h (out_size processed) w3 of
                      Inl err \<Rightarrow> Inl (err, w3)
                    | Inr w4 \<Rightarrow>
                        Inr (result\<lparr>photosAdded := photosAdded result + 1\<rparr>,
                             cleanup e (out_path processed) (cleanup e downloadedPath w4)))
                  else
                    Inr (result\<lparr>errors := errors result @
                            [''Failed to push '' @ photo_name photo @ '': '' @
                             (case push_error pushResult of Some m \<Rightarrow> m | None \<Rightarrow> ''undefined'')]\<rparr>,
                         cleanup e (out_path processed) (cleanup e downloadedPath w3))))))))"

text \<open>One iteration with its \<open>catch\<close>: the error is recorded, nothing else is done.\<close>

definition sync_photo ::
  "env \<Rightarrow> DeviceRecord \<Rightarrow> string \<Rightarrow> string \<Rightarrow> string list \<Rightarrow> PhotoInfo \<Rightarrow> SyncResult \<times> world
   \<Rightarrow> SyncResult \<times> world" where
  "sync_photo e device mid tempDir syncedPhotoIds photo rw =
     (case try_photo e device mid tempDir syncedPhotoIds photo (fst rw) (snd rw) of
        Inl (err, w') \<Rightarrow>
          ((fst rw)\<lparr>errors := errors (fst rw) @
              [''Error processing '' @ photo_name photo @ '': '' @ message err]\<rparr>, w')
      | Inr rw' \<Rightarrow> rw')"

fun sync_photos ::
  "env \<Rightarrow> DeviceRecord \<Rightarrow> string \<Rightarrow> string \<Rightarrow> string list \<Rightarrow> PhotoInfo list \<Rightarrow> SyncResult \<times> world
   \<Rightarrow> SyncResult \<times> world" where
  "sync_photos e device mid tempDir syncedPhotoIds [] rw = rw"
| "sync_photos e device mid tempDir syncedPhotoIds (photo # rest) rw =
     sync_photos e device mid tempDir syncedPhotoIds rest
       (sync_photo e device mid tempDir syncedPhotoIds photo rw)"

text \<open>
  One iteration of \<^verbatim>\<open>for (const synced of toRemove)\<close>:
  \<^verbatim>\<open>try { await adbService.deleteFile(serial, synced.devicePath);
        this.deleteSyncedPhoto(synced.id); result.photosRemoved++; }
  catch (err) { result.errors.push(`Failed to remove ...`) }\<close>
  The boolean \<open>deleteFile\<close> returns is not looked at.
\<close>

definition remove_synced :: "env \<Rightarrow> DeviceRecord \<Rightarrow> SyncedPhoto \<Rightarrow> SyncResult \<times> world \<Rightarrow> SyncResult \<times> world" where
  "remove_synced e device synced rw =
     (case deleteFile e (serial device) (devicePath synced) (snd rw) of
        Inl err \<Rightarrow>
          ((fst rw)\<lparr>errors := errors (fst rw) @
              [''Failed to remove '' @ devicePath synced @ '': '' @ message err]\<rparr>, snd rw)
      | Inr (deleted, w1) \<Rightarrow>
         (case deleteSyncedPhoto e (row_id synced) w1 of
            Inl err \<Rightarrow>
              ((fst rw)\<lparr>errors := errors (fst rw) @
                  [''Failed to remove '' @ devicePath synced @ '': '' @ message err]\<rparr>, w1)
          | Inr w2 \<Rightarrow> ((fst rw)\<lparr>photosRemoved := photosRemoved (fst rw) + 1\<rparr>, w2)))"

fun remove_all :: "env \<Rightarrow> DeviceRecord \<Rightarrow> SyncedPhoto list \<Rightarrow> SyncResult \<times> world \<Rightarrow> SyncResult \<times> world" where
  "remove_all e device [] rw = rw"
| "remove_all e device (synced # rest) rw = remove_all e device rest (remove_synced e device synced rw)"

text \<open>\<^verbatim>\<open>syncedPhotos.filter(sp => !sourcePhotoIds.has(sp.sourcePhotoId))\<close>\<close>

definition toRemove :: "PhotoInfo list \<Rightarrow> SyncedPhoto list \<Rightarrow> SyncedPhoto list" where
  "toRemove photos syncedPhotos =
     filter (\<lambda>sp. sourcePhotoId sp \<notin> set (map photo_id photos)) syncedPhotos"

text \<open>The mirror-mode block after the loop.\<close>

definition removal_pass ::
  "env \<Rightarrow> SyncMapping \<Rightarrow> DeviceRecord \<Rightarrow> PhotoInfo list \<Rightarrow> SyncedPhoto list \<Rightarrow> SyncResult \<times> world
   \<Rightarrow> SyncResult \<times> world" where
  "removal_pass e mapping device photos syncedPhotos rw =
     (if syncMode mapping = Mirror
      then remove_all e device (toRemove photos syncedPhotos) rw
      else rw)"

definition temp_dir :: "env \<Rightarrow> string \<Rightarrow> string" where
  "temp_dir e mid = PHOTOS_PATH e @ ''/temp/'' @ mid"

text \<open>
  The outer \<open>try\<close> of \<open>executeSync\<close>, from \<open>createSource\<close> to the end. A throw carries
  the result and the world as they were.
\<close>

definition sync_body ::
  "env \<Rightarrow> SyncMapping \<Rightarrow> SourceRecord \<Rightarrow> DeviceRecord \<Rightarrow> string \<Rightarrow> SyncResult \<Rightarrow> world
   \<Rightarrow> (error \<times> SyncResult \<times> world) + (SyncResult \<times> world)" where
  "sync_body e mapping sourceRecord device mid result w =
     (case createSource sourceRecord of
        Inl err \<Rightarrow> Inl (err, result, w)
      | Inr source \<Rightarrow>
     (case mkdir_fault e (temp_dir e mid) of
        Some err \<Rightarrow> Inl (err, result, w)
      | None \<Rightarrow>
     (case ensureDirectory e (serial device) (base_path device) w of
        Inl err \<Rightarrow> Inl (err, result, w)
      | Inr w1 \<Rightarrow>
     (case source_photos e of
        Inl err \<Rightarrow> Inl (err, result, w1)
      | Inr sourcePhotos \<Rightarrow>
          let photos = photosToSync mapping sourcePhotos;
              syncedPhotos = getSyncedPhotos mid w1;
              syncedPhotoIds = map sourcePhotoId syncedPhotos;
              rw2 = sync_photos e device mid (temp_dir e mid) syncedPhotoIds photos (result, w1);
              rw3 = removal_pass e mapping device photos syncedPhotos rw2
          in (case updateLastSync e (snd rw3) of
                Inl err \<Rightarrow> Inl (err, fst rw3, snd rw3)
              | Inr w4 \<Rightarrow>
                  Inr ((fst rw3)\<lparr>success := (errors (fst rw3) = [])\<rparr>,
                       rm_tempDir e (temp_dir e mid) w4))))))"

text \<open>
  \<open>SyncEngine.executeSync\<close>. The run log (\<open>sync_logs\<close>) and the timestamps of the
  result are left out.
\<close>

definition new_result :: "string \<Rightarrow> SyncResult" where
  "new_result mid =
     \<lparr>mappingId = mid, success = False, photosAdded = 0, photosRemoved = 0, photosSkipped = 0,
      errors = []\<rparr>"

definition executeSync :: "env \<Rightarrow> string \<Rightarrow> world \<Rightarrow> SyncResult \<times> world" where
  "executeSync e mid w =
     (let result = new_result mid
      in case getMapping e mid of
           None \<Rightarrow> (result\<lparr>errors := [''Mapping not found'']\<rparr>, w)
         | Some mapping \<Rightarrow>
          (case getSource e (sourceId mapping) of
             None \<Rightarrow> (result\<lparr>errors := [''Source not found'']\<rparr>, w)
           | Some sourceRecord \<Rightarrow>
            (case getDevice e (deviceId mapping) of
               None \<Rightarrow> (result\<lparr>errors := [''Device not found'']\<rparr>, w)
             | Some device \<Rightarrow>
              (case sync_body e mapping sourceRecord device mid result w of
                 Inl (err, result', w') \<Rightarrow>
                   (result'\<lparr>errors := errors result' @ [''Sync failed: '' @ message err]\<rparr>, w')
               | Inr rw \<Rightarrow> rw))))"

section \<open>executeSync as an async function\<close>

text \<open>
  \<open>executeSync\<close> is an async function: a call runs up to its first \<open>await\<close>, and each
  time the operation it awaits completes it runs on to its next \<open>await\<close>; other calls run
  in between. A value of \<open>'a async\<close> is what remains of a call that will return an \<open>'a\<close>:
  nothing (\<open>Return\<close>), or, the call being suspended at an \<open>await\<close>, what happens when the
  awaited operation completes in a given world: the effect of the operation and of the
  code up to the next \<open>await\<close>, and what remains then. An operation of a collaborator (a
  transfer, a shell command, a file operation) takes effect at once, when it completes.
\<close>

datatype 'a async = Return 'a | Await "world \<Rightarrow> 'a async \<times> world"

text \<open>
  The code of a call from some point to its next \<open>await\<close>, as a function of the world it
  runs in.
\<close>

type_synonym 'a segment = "world \<Rightarrow> 'a async \<times> world"

text \<open>
  The call runs on to its end with nothing else running in between.
\<close>

primrec run_async :: "'a async \<Rightarrow> world \<Rightarrow> 'a \<times> world" where
  "run_async (Return a) w = (a, w)"
| "run_async (Await k) w = (case map_prod run_async id (k w) of (r, w') \<Rightarrow> r w')"

definition run_segment :: "'a segment \<Rightarrow> world \<Rightarrow> 'a \<times> world" where
  "run_segment c w = (case c w of (t, w') \<Rightarrow> run_async t w')"

text \<open>
  \<^verbatim>\<open>x = await p; ...\<close>: what remains of \<open>p\<close>, then the rest with the value of \<open>p\<close>.
  Awaiting a promise that is settled already is not counted as a suspension.
\<close>

primrec bind_async :: "'a async \<Rightarrow> ('a \<Rightarrow> 'b async) \<Rightarrow> 'b async" where
  "bind_async (Return a) f = f a"
| "bind_async (Await k) f = Await (\<lambda>w. map_prod (\<lambda>t. bind_async t f) id (k w))"

text \<open>
  \<^verbatim>\<open>x = await operation(...)\<close> inside a \<open>try\<close>: the call is suspended. When the
  operation completes, in the world of that moment, a throw goes to the \<open>catch\<close> and a
  value to the code that follows; either runs on from the world the operation left.
\<close>

definition await ::
  "(world \<Rightarrow> error + ('x \<times> world)) \<Rightarrow> (error \<Rightarrow> 'a segment) \<Rightarrow> ('x \<Rightarrow> 'a segment) \<Rightarrow> 'a segment" where
  "await operation caught next w =
     (Await (\<lambda>w. case operation w of Inl err \<Rightarrow> caught err w | Inr (x, w1) \<Rightarrow> next x w1), w)"

text \<open>
  An operation that leaves the world as it is and may return a value, and one that
  changes the world and returns none, in the form \<open>await\<close> takes.
\<close>

definition returns :: "error + 'x \<Rightarrow> world \<Rightarrow> error + ('x \<times> world)" where
  "returns r w = (case r of Inl err \<Rightarrow> Inl err | Inr x \<Rightarrow> Inr (x, w))"

definition acts :: "error + world \<Rightarrow> error + (unit \<times> world)" where
  "acts r = (case r of Inl err \<Rightarrow> Inl err | Inr w1 \<Rightarrow> Inr ((), w1))"

text \<open>
  One iteration of \<^verbatim>\<open>for (const photo of photosToSync)\<close> with its \<open>try\<close> and its
  \<open>catch\<close>, the code that \<open>try_photo\<close> and \<open>sync_photo\<close> embed, with its \<open>await\<close>s:
  \<open>downloadPhoto\<close>, \<open>processImage\<close>, \<open>computeHash\<close>, \<open>getFileHash\<close>, \<open>pushFile\<close> and the two
  \<open>cleanup\<close> calls. \<open>recordSyncedPhoto\<close> is synchronous: it runs when the push completes.
  \<open>next\<close> is the rest of the run, given the result so far.
\<close>

definition photo_async ::
  "env \<Rightarrow> DeviceRecord \<Rightarrow> string \<Rightarrow> string \<Rightarrow> string list \<Rightarrow> PhotoInfo \<Rightarrow> SyncResult
   \<Rightarrow> (SyncResult \<Rightarrow> 'a segment) \<Rightarrow> 'a segment" where
  "photo_async e device mid tempDir syncedPhotoIds photo result next =
     (let caught = (\<lambda>err. next (result\<lparr>errors := errors result @
                       [''Error processing '' @ photo_name photo @ '': '' @ message err]\<rparr>))
      in
      if photo_id photo \<in> set syncedPhotoIds
      then next (result\<lparr>photosSkipped := photosSkipped result + 1\<rparr>)
      else
        await (downloadPhoto e photo tempDir) caught (\<lambda>downloadedPath.
        await (processImage e downloadedPath) caught (\<lambda>processed.
        await (returns (computeHash e (out_path processed))) caught (\<lambda>h.
        await (\<lambda>w. returns (getFileHash e (serial device)
                                 (remote_path device h (out_format processed)) w) w) caught (\<lambda>existingHash.
          if existingHash = Some h
          then
            await (\<lambda>w. acts (Inr (cleanup e downloadedPath w))) caught (\<lambda>u.
            await (\<lambda>w. acts (Inr (cleanup e (out_path processed) w))) caught (\<lambda>u.
            next (result\<lparr>photosSkipped := photosSkipped result + 1\<rparr>)))
          else
            await (pushFile e (serial device) (out_path processed)
                     (remote_path device h (out_format processed))) caught (\<lambda>pushResult w3.
              if push_success pushResult
              then
               (case recordSyncedPhoto e mid (photo_id photo) (photo_path photo)
                       (remote_path device h (out_format processed)) h (out_size processed) w3 of
                  Inl err \<Rightarrow> caught err w3
                | Inr w4 \<Rightarrow>
                    await (\<lambda>w. acts (Inr (cleanup e downloadedPath w))) caught (\<lambda>u.
                    await (\<lambda>w. acts (Inr (cleanup e (out_path processed) w))) caught (\<lambda>u.
                    next (result\<lparr>photosAdded := photosAdded result + 1\<rparr>))) w4)
              else
                await (\<lambda>w. acts (Inr (cleanup e downloadedPath w))) caught (\<lambda>u.
                await (\<lambda>w. acts (Inr (cleanup e (out_path processed) w))) caught (\<lambda>u.
                next (result\<lparr>errors := errors result @
                        [''Failed to push '' @ photo_name photo @ '': '' @
                         (case push_error pushResult of Some m \<Rightarrow> m | None \<Rightarrow> ''undefined'')]\<rparr>)))
                  w3))))))"

fun photos_async ::
  "env \<Rightarrow> DeviceRecord \<Rightarrow> string \<Rightarrow> string \<Rightarrow> string list \<Rightarrow> PhotoInfo list \<Rightarrow> SyncResult
   \<Rightarrow> (SyncResult \<Rightarrow> 'a segment) \<Rightarrow> 'a segment" where
  "photos_async e device mid tempDir syncedPhotoIds [] result next = next result"
| "photos_async e device mid tempDir syncedPhotoIds (photo # rest) result next =
     photo_async e device mid tempDir syncedPhotoIds photo result
       (\<lambda>result. photos_async e device mid tempDir syncedPhotoIds rest result next)"

text \<open>
  One iteration of \<^verbatim>\<open>for (const synced of toRemove)\<close> with its \<open>try\<close> and its \<open>catch\<close>,
  the code that \<open>remove_synced\<close> embeds: \<^verbatim>\<open>await adbService.deleteFile(...)\<close>, then the
  synchronous \<open>deleteSyncedPhoto\<close>.
\<close>

definition remove_async ::
  "env \<Rightarrow> DeviceRecord \<Rightarrow> SyncedPhoto \<Rightarrow> SyncResult \<Rightarrow> (SyncResult \<Rightarrow> 'a segment) \<Rightarrow> 'a segment" where
  "remove_async e device synced result next =
     (let caught = (\<lambda>err. next (result\<lparr>errors := errors result @
                       [''Failed to remove '' @ devicePath synced @ '': '' @ message err]\<rparr>))
      in
      await (deleteFile e (serial device) (devicePath synced)) caught (\<lambda>deleted w1.
        case deleteSyncedPhoto e (row_id synced) w1 of
          Inl err \<Rightarrow> caught err w1
        | Inr w2 \<Rightarrow> next (result\<lparr>photosRemoved := photosRemoved result + 1\<rparr>) w2))"

fun remove_all_async ::
  "env \<Rightarrow> DeviceRecord \<Rightarrow> SyncedPhoto list \<Rightarrow> SyncResult \<Rightarrow> (SyncResult \<Rightarrow> 'a segment) \<Rightarrow> 'a segment" where
  "remove_all_async e device [] result next = next result"
| "remove_all_async e device (synced # rest) result next =
     remove_async e device synced result (\<lambda>result. remove_all_async e device rest result next)"

definition removal_async ::
  "env \<Rightarrow> SyncMapping \<Rightarrow> DeviceRecord \<Rightarrow> PhotoInfo list \<Rightarrow> SyncedPhoto list \<Rightarrow> SyncResult
   \<Rightarrow> (SyncResult \<Rightarrow> 'a segment) \<Rightarrow> 'a segment" where
  "removal_async e mapping device photos syncedPhotos result next =
     (if syncMode mapping = Mirror
      then remove_all_async e device (toRemove photos syncedPhotos) result next
      else next result)"

text \<open>
  The outer \<open>catch\<close> of \<open>executeSync\<close>: the error is recorded and the result is returned.
\<close>

definition failed :: "SyncResult \<Rightarrow> error \<Rightarrow> SyncResult segment" where
  "failed result err w =
     (Return (result\<lparr>errors := errors result @ [''Sync failed: '' @ message err]\<rparr>), w)"

text \<open>
  The end of the outer \<open>try\<close>: the synchronous \<open>updateLastSync\<close>, then
  \<^verbatim>\<open>try { await rm(tempDir, ...) } catch { }\<close>, then \<open>success\<close> is set and the result
  returned.
\<close>

definition finish_async :: "env \<Rightarrow> string \<Rightarrow> SyncResult \<Rightarrow> SyncResult segment" where
  "finish_async e mid result w =
     (case updateLastSync e w of
        Inl err \<Rightarrow> failed result err w
      | Inr w4 \<Rightarrow>
          await (\<lambda>w. acts (Inr (rm_tempDir e (temp_dir e mid) w))) (failed result) (\<lambda>u w.
            (Return (result\<lparr>success := (errors result = [])\<rparr>), w)) w4)"

text \<open>
  The outer \<open>try\<close> of \<open>executeSync\<close>, the code that \<open>sync_body\<close> embeds, with its \<open>await\<close>s
  before the loop: \<open>mkdir\<close>, \<open>ensureDirectory\<close> and \<open>getPhotos\<close>. The ledger is read
  (\<open>getSyncedPhotos\<close>) when \<open>getPhotos\<close> completes, once for the whole run. When the
  temporary directory exists the code does not call \<open>mkdir\<close>; the suspension is kept here,
  where it has no effect on the world.
\<close>

definition sync_body_async ::
  "env \<Rightarrow> SyncMapping \<Rightarrow> SourceRecord \<Rightarrow> DeviceRecord \<Rightarrow> string \<Rightarrow> SyncResult \<Rightarrow> SyncResult segment" where
  "sync_body_async e mapping sourceRecord device mid result =
     (case createSource sourceRecord of
        Inl err \<Rightarrow> failed result err
      | Inr source \<Rightarrow>
          await (\<lambda>w. acts (case mkdir_fault e (temp_dir e mid) of Some err \<Rightarrow> Inl err | None \<Rightarrow> Inr w))
            (failed result) (\<lambda>u.
          await (\<lambda>w. acts (ensureDirectory e (serial device) (base_path device) w))
            (failed result) (\<lambda>u.
          await (returns (source_photos e)) (failed result) (\<lambda>sourcePhotos w.
            let photos = photosToSync mapping sourcePhotos;
                syncedPhotos = getSyncedPhotos mid w;
                syncedPhotoIds = map sourcePhotoId syncedPhotos
            in photos_async e device mid (temp_dir e mid) syncedPhotoIds photos result
                 (\<lambda>result. removal_async e mapping device photos syncedPhotos result
                    (finish_async e mid))
                 w))))"

text \<open>
  \<open>SyncEngine.executeSync\<close> as a call: the lookups are synchronous, and a missing mapping,
  source or device returns at once.
\<close>

definition executeSync_async :: "env \<Rightarrow> string \<Rightarrow> SyncResult segment" where
  "executeSync_async e mid w =
     (let result = new_result mid
      in case getMapping e mid of
           None \<Rightarrow> (Return (result\<lparr>errors := [''Mapping not found'']\<rparr>), w)
         | Some mapping \<Rightarrow>
          (case getSource e (sourceId mapping) of
             None \<Rightarrow> (Return (result\<lparr>errors := [''Source not found'']\<rparr>), w)
           | Some sourceRecord \<Rightarrow>
            (case getDevice e (deviceId mapping) of
               None \<Rightarrow> (Return (result\<lparr>errors := [''Device not found'']\<rparr>), w)
             | Some device \<Rightarrow> sync_body_async e mapping sourceRecord device mid result w)))"

section \<open>SyncScheduler\<close>

text \<open>
  The scheduler object: \<open>tasks\<close> maps a mapping id to its cron task (kept here with the
  schedule expression), \<open>isRunning\<close> is the flag of \<open>start\<close>/\<open>stop\<close>. The class has no
  other field.
\<close>

record scheduler =
  tasks :: "(string \<times> string) list"
  isRunning :: bool

text \<open>\<open>unscheduleMapping\<close>: stops and forgets the task, if there is one.\<close>

definition unscheduleMapping :: "string \<Rightarrow> scheduler \<Rightarrow> scheduler" where
  "unscheduleMapping mid s = s\<lparr>tasks := filter (\<lambda>t. fst t \<noteq> mid) (tasks s)\<rparr>"

text \<open>
  \<open>scheduleMapping\<close>: nothing without a schedule or with an expression \<open>cron.validate\<close>
  refuses (the validator is a parameter); otherwise the old task is replaced.
\<close>

definition scheduleMapping :: "(string \<Rightarrow> bool) \<Rightarrow> SyncMapping \<Rightarrow> scheduler \<Rightarrow> scheduler" where
  "scheduleMapping cron_validate mapping s =
     (case schedule mapping of
        None \<Rightarrow> s
      | Some expr \<Rightarrow>
          if expr = [] then s
          else if \<not> cron_validate expr then s
          else (unscheduleMapping (mapping_id mapping) s)
                 \<lparr>tasks := tasks (unscheduleMapping (mapping_id mapping) s) @ [(mapping_id mapping, expr)]\<rparr>)"

text \<open>
  \<open>triggerSync\<close>:
  \<^verbatim>\<open>async triggerSync(mappingId) { await syncEngine.executeSync(mappingId); }\<close>
  It calls \<open>executeSync\<close>, waits for that call and returns nothing. It reads no field of
  the scheduler.
\<close>

definition triggerSync :: "env \<Rightarrow> string \<Rightarrow> unit segment" where
  "triggerSync e mid w =
     (case executeSync_async e mid w of
        (promise, w') \<Rightarrow> (bind_async promise (\<lambda>result. Return ()), w'))"

text \<open>
  The callback that \<open>scheduleMapping\<close> gives to \<open>cron.schedule\<close>:
  \<^verbatim>\<open>async () => { try { const result = await syncEngine.executeSync(mapping.id); }
                 catch (err) { } }\<close>
  with a log line in each branch. The promise of \<open>executeSync\<close> is never rejected here
  (what its steps throw it catches itself), so this \<open>catch\<close> has nothing to catch.
\<close>

definition scheduled_sync :: "env \<Rightarrow> string \<Rightarrow> unit segment" where
  "scheduled_sync e mid w =
     (case executeSync_async e mid w of
        (promise, w') \<Rightarrow> (bind_async promise (\<lambda>result. Return ()), w'))"

text \<open>
  The schedule of the mapping fires: the callback of its cron task runs, if the mapping
  has one.
\<close>

definition cron_fire :: "env \<Rightarrow> scheduler \<Rightarrow> string \<Rightarrow> unit segment" where
  "cron_fire e s mid w =
     (if mid \<in> set (map fst (tasks s)) then scheduled_sync e mid w else (Return (), w))"

section \<open>Calls in flight\<close>

text \<open>
  The state of the process between two segments: the world, and what remains of each call
  made so far, in the order the calls were made.
\<close>

record 'a runtime =
  world_now :: world
  calls :: "'a async list"

text \<open>
  A call is made: its code runs up to its first \<open>await\<close>.
\<close>

definition start :: "'a segment \<Rightarrow> 'a runtime \<Rightarrow> 'a runtime" where
  "start c rt =
     (case c (world_now rt) of (t, w') \<Rightarrow> rt\<lparr>world_now := w', calls := calls rt @ [t]\<rparr>)"

text \<open>
  The operation that call \<open>i\<close> awaits completes: the call runs on to its next \<open>await\<close>, or
  to its end. A call that has returned stays as it is.
\<close>

definition resume :: "nat \<Rightarrow> 'a runtime \<Rightarrow> 'a runtime" where
  "resume i rt =
     (if i < length (calls rt)
      then (case calls rt ! i of
              Return x \<Rightarrow> rt
            | Await k \<Rightarrow>
                (case k (world_now rt) of (t, w') \<Rightarrow> rt\<lparr>world_now := w', calls := (calls rt)[i := t]\<rparr>))
      else rt)"

text \<open>
  A schedule: the calls whose awaited operations complete, in the order they do.
\<close>

fun resume_all :: "nat list \<Rightarrow> 'a runtime \<Rightarrow> 'a runtime" where
  "resume_all [] rt = rt"
| "resume_all (i # rest) rt = resume_all rest (resume i rt)"

text \<open>
  The call is suspended at an \<open>await\<close>; the number of such calls; what a call returned.
\<close>

definition pending :: "'a async \<Rightarrow> bool" where
  "pending t = (case t of Return x \<Rightarrow> False | Await k \<Rightarrow> True)"

definition in_flight :: "'a runtime \<Rightarrow> nat" where
  "in_flight rt = length (filter pending (calls rt))"

definition outcome :: "'a async \<Rightarrow> 'a option" where
  "outcome t = (case t of Return x \<Rightarrow> Some x | Await k \<Rightarrow> None)"

section \<open>Conditions on the inputs of a run\<close>

text \<open>An MD5 digest as \<open>digest('hex')\<close> and \<open>md5sum\<close> print it: lowercase hexadecimal digits.\<close>

definition is_hex :: "char \<Rightarrow> bool" where
  "is_hex c = (c \<in> set ''0123456789abcdef'')"

definition hex_digest :: "string \<Rightarrow> bool" where
  "hex_digest h = (h \<noteq> [] \<and> list_all is_hex h)"

text \<open>
  The steps of \<open>executeSync\<close> before the loop all go through: the mapping, its source and
  its device are found, the source has a factory, the temporary directory and the remote
  directory can be made, and the source lists its photos.
\<close>

definition preflight_ok ::
  "env \<Rightarrow> string \<Rightarrow> SyncMapping \<Rightarrow> SourceRecord \<Rightarrow> DeviceRecord \<Rightarrow> PhotoInfo list \<Rightarrow> bool" where
  "preflight_ok e mid mapping sourceRecord device sourcePhotos =
     (getMapping e mid = Some mapping \<and>
      getSource e (sourceId mapping) = Some sourceRecord \<and>
      getDevice e (deviceId mapping) = Some device \<and>
      source_kind sourceRecord \<noteq> GoogleDrive \<and>
      mkdir_fault e (temp_dir e mid) = None \<and>
      shell_fault e (serial device) (MkdirP (base_path device)) = None \<and>
      source_photos e = Inr sourcePhotos)"

text \<open>
  What the first steps of an iteration yield for a photo when the download, the
  processing and the hashing all succeed: the downloaded path and the processed image.
  From them, the digest the engine computes and the remote path it derives.
\<close>

definition prepared :: "env \<Rightarrow> string \<Rightarrow> PhotoInfo \<Rightarrow> (string \<times> ProcessedImage) option" where
  "prepared e tempDir photo =
     (case source_download e photo tempDir of
        Inl err \<Rightarrow> None
      | Inr dl \<Rightarrow>
         (case process_result e dl of
            Inl err \<Rightarrow> None
          | Inr processed \<Rightarrow>
             (case read_fault e (out_path processed) of
                Some err \<Rightarrow> None
              | None \<Rightarrow> Some (dl, processed))))"

definition photo_digest :: "env \<Rightarrow> string \<Rightarrow> PhotoInfo \<Rightarrow> string option" where
  "photo_digest e tempDir photo =
     map_option (\<lambda>x. file_md5 e (out_path (snd x))) (prepared e tempDir photo)"

definition photo_target :: "env \<Rightarrow> DeviceRecord \<Rightarrow> string \<Rightarrow> PhotoInfo \<Rightarrow> string option" where
  "photo_target e device tempDir photo =
     map_option (\<lambda>x. remote_path device (file_md5 e (out_path (snd x))) (out_format (snd x)))
       (prepared e tempDir photo)"

text \<open>The fault, if any, that the push of a prepared photo meets.\<close>

definition photo_push :: "env \<Rightarrow> DeviceRecord \<Rightarrow> string \<Rightarrow> PhotoInfo \<Rightarrow> push_fault option" where
  "photo_push e device tempDir photo =
     map_option (\<lambda>x. push_faults e (serial device) (out_path (snd x))
                        (remote_path device (file_md5 e (out_path (snd x))) (out_format (snd x))))
       (prepared e tempDir photo)"

text \<open>Generated row ids are fresh: every row of the table has an id below the counter.\<close>

definition ids_fresh :: "world \<Rightarrow> bool" where
  "ids_fresh w = list_all (\<lambda>r. row_id r < next_row_id w) (synced_photos w)"

text \<open>The photo is prepared and its push meets no fault.\<close>

definition pushed :: "env \<Rightarrow> DeviceRecord \<Rightarrow> string \<Rightarrow> PhotoInfo \<Rightarrow> bool" where
  "pushed e device tempDir p = (photo_push e device tempDir p = Some NoFault)"

text \<open>
  The photo is prepared, and the device, asked over a working transport, holds at the
  derived remote path a file with the digest of the processed photo.
\<close>

definition matches_remote :: "env \<Rightarrow> DeviceRecord \<Rightarrow> string \<Rightarrow> world \<Rightarrow> PhotoInfo \<Rightarrow> bool" where
  "matches_remote e device tempDir w p =
     (case prepared e tempDir p of
        None \<Rightarrow> False
      | Some x \<Rightarrow>
          shell_fault e (serial device)
            (Md5sum (remote_path device (file_md5 e (out_path (snd x))) (out_format (snd x)))) = None \<and>
          device_files w (serial device)
            (remote_path device (file_md5 e (out_path (snd x))) (out_format (snd x)))
            = Some (file_md5 e (out_path (snd x))) \<and>
          hex_digest (file_md5 e (out_path (snd x))) \<and>
          \<not> js_includes (remote_path device (file_md5 e (out_path (snd x))) (out_format (snd x)))
                ''No such file'')"








text \<open>
  The call of \<open>executeSync\<close> gets to its first \<open>await\<close>: the mapping, its source and its
  device are found and the source has a factory.
\<close>

definition run_starts :: "env \<Rightarrow> string \<Rightarrow> bool" where
  "run_starts e mid =
     (case getMapping e mid of
        None \<Rightarrow> False
      | Some mapping \<Rightarrow>
         (case getSource e (sourceId mapping) of
            None \<Rightarrow> False
          | Some sourceRecord \<Rightarrow>
              getDevice e (deviceId mapping) \<noteq> None \<and> source_kind sourceRecord \<noteq> GoogleDrive))"

section \<open>Example inputs\<close>

text \<open>
  A configuration with one mapping \<open>m1\<close> from a local folder to the device \<open>SER\<close>, where
  nothing fails: a download lands in the temporary directory under the photo's name, the
  processor writes \<open>name.jpeg\<close> beside it, and \<open>md5\<close> gives the digest of a local file.
\<close>

definition example_mapping :: "sync_mode \<Rightarrow> int option \<Rightarrow> SyncMapping" where
  "example_mapping mode cap =
     \<lparr>mapping_id = ''m1'', sourceId = ''s1'', deviceId = ''d1'', syncMode = mode, maxPhotos = cap,
      schedule = None, isActive = True\<rparr>"

definition example_source :: SourceRecord where
  "example_source = \<lparr>source_id = ''s1'', source_kind = LocalFolder\<rparr>"

definition example_device :: DeviceRecord where
  "example_device = \<lparr>device_id = ''d1'', serial = ''SER'', base_path = ''/sdcard/F''\<rparr>"

definition example_env :: "sync_mode \<Rightarrow> int option \<Rightarrow> PhotoInfo list \<Rightarrow> (string \<Rightarrow> string) \<Rightarrow> env" where
  "example_env mode cap photos md5 =
     \<lparr>sync_mappings = [example_mapping mode cap],
      sources = [example_source],
      devices = [example_device],
      PHOTOS_PATH = ''/data'',
      mkdir_fault = (\<lambda>d. None),
      shell_fault = (\<lambda>ser cmd. None),
      push_faults = (\<lambda>ser l r. NoFault),
      source_photos = Inr photos,
      source_download = (\<lambda>photo dir. Inr (dir @ ''/'' @ photo_name photo)),
      process_result = (\<lambda>p. Inr \<lparr>out_path = p @ ''.jpeg'', out_format = ''jpeg'', out_size = 1\<rparr>),
      read_fault = (\<lambda>p. None),
      file_md5 = md5,
      unlink_fault = (\<lambda>p. False),
      rm_fault = (\<lambda>d. False),
      insert_fault = (\<lambda>p. None),
      delete_fault = (\<lambda>i. None),
      update_fault = None\<rparr>"

definition photo_named :: "string \<Rightarrow> PhotoInfo" where
  "photo_named n = \<lparr>photo_id = ''/src/'' @ n, photo_name = n, photo_path = ''/src/'' @ n\<rparr>"

text \<open>An empty ledger and a device without files.\<close>

definition fresh_world :: world where
  "fresh_world =
     \<lparr>synced_photos = [], next_row_id = 0, device_files = (\<lambda>ser. Map.empty), temp_files = [],
      last_sync_written = False\<rparr>"

text \<open>All local files have the same bytes.\<close>

definition md5_same :: "string \<Rightarrow> string" where
  "md5_same p = ''0a''"

text \<open>The device holds one file with digest \<open>0a\<close> under its content-derived name.\<close>

definition world_one_file :: world where
  "world_one_file =
     fresh_world\<lparr>device_files := (\<lambda>ser. Map.empty)(''SER'' := [''/sdcard/F/0a.jpeg'' \<mapsto> ''0a''])\<rparr>"

text \<open>The transport is down: every shell command throws.\<close>

definition env_offline :: env where
  "env_offline = (example_env AddOnly None [] md5_same)\<lparr>shell_fault := (\<lambda>ser cmd. Some (Error ''timeout''))\<rparr>"

text \<open>The digest of a local file is \<open>0\<close> and the first letter of the photo's name.\<close>

definition md5_by_name :: "string \<Rightarrow> string" where
  "md5_by_name p = ''0'' @ take 1 (drop 14 p)"

text \<open>
  A ledger row of \<open>m1\<close> for a photo \<open>x\<close> that the source no longer lists, and one for the
  photo \<open>a\<close>; both point at the same remote file.
\<close>

definition stale_row :: SyncedPhoto where
  "stale_row =
     \<lparr>row_id = 0, row_mappingId = ''m1'', sourcePhotoId = ''/src/x'', sourcePath = ''/src/x'',
      devicePath = ''/sdcard/F/0a.jpeg'', fileHash = ''0a'', fileSize = 1\<rparr>"

definition kept_row :: SyncedPhoto where
  "kept_row =
     \<lparr>row_id = 1, row_mappingId = ''m1'', sourcePhotoId = ''/src/a'', sourcePath = ''/src/a'',
      devicePath = ''/sdcard/F/0a.jpeg'', fileHash = ''0a'', fileSize = 1\<rparr>"

definition world_stale :: world where
  "world_stale = world_one_file\<lparr>synced_photos := [stale_row], next_row_id := 1\<rparr>"

definition world_shared :: world where
  "world_shared = world_one_file\<lparr>synced_photos := [stale_row, kept_row], next_row_id := 2\<rparr>"

text \<open>The transport works except for \<open>rm -f\<close>, which throws.\<close>

definition env_rm_fails :: env where
  "env_rm_fails =
     (example_env Mirror None [] md5_same)
       \<lparr>shell_fault := (\<lambda>ser cmd. case cmd of RmF p \<Rightarrow> Some (Error ''closed'') | _ \<Rightarrow> None)\<rparr>"






text \<open>
  A scheduler with the cron task of \<open>m1\<close>; a process in which no call was made yet.
\<close>

definition idle_scheduler :: scheduler where
  "idle_scheduler = \<lparr>tasks = [(''m1'', ''0 * * * *'')], isRunning = True\<rparr>"

definition idle_runtime :: "world \<Rightarrow> 'a runtime" where
  "idle_runtime w = \<lparr>world_now = w, calls = []\<rparr>"

text \<open>
  \<open>executeSync\<close> called twice for \<open>m1\<close>, the second time while the first call is suspended
  at its first \<open>await\<close>, as two requests \<^verbatim>\<open>POST /sync/mappings/m1/sync\<close> do. The source has
  one photo, the ledger and the device are empty.
\<close>

definition two_runs :: "SyncResult runtime" where
  "two_runs =
     start (executeSync_async (example_env AddOnly None [photo_named ''a''] md5_same) ''m1'')
       (start (executeSync_async (example_env AddOnly None [photo_named ''a''] md5_same) ''m1'')
          (idle_runtime fresh_world))"

text \<open>
  \<open>triggerSync\<close> called twice for \<open>m1\<close> in the same way.
\<close>

definition two_triggers :: "unit runtime" where
  "two_triggers =
     start (triggerSync (example_env AddOnly None [photo_named ''a''] md5_same) ''m1'')
       (start (triggerSync (example_env AddOnly None [photo_named ''a''] md5_same) ''m1'')
          (idle_runtime fresh_world))"

text \<open>Five photos with different bytes; the transfer of the third breaks off.\<close>

definition five_photos :: "PhotoInfo list" where
  "five_photos = [photo_named ''a'', photo_named ''b'', photo_named ''c'', photo_named ''d'', photo_named ''e'']"


section \<open>Parsing the output of md5sum\<close>

lemma is_hex_not:
  assumes "is_hex c"
  shows "c \<noteq> CHR '' ''" and "c \<noteq> CHR ''N''" and "c \<noteq> CHR ''.''" and "\<not> js_whitespace c"
  using assms unfolding is_hex_def js_whitespace_def by auto

lemma hex_digest_chars:
  assumes "hex_digest h" and "c \<in> set h"
  shows "c \<noteq> CHR '' ''" and "c \<noteq> CHR ''N''" and "c \<noteq> CHR ''.''" and "\<not> js_whitespace c"
proof -
  have "is_hex c" using assms by (simp add: hex_digest_def list_all_iff)
  then show "c \<noteq> CHR '' ''" and "c \<noteq> CHR ''N''" and "c \<noteq> CHR ''.''" and "\<not> js_whitespace c"
    by (rule is_hex_not)+
qed

lemma starts_with_append: "starts_with s sub \<Longrightarrow> starts_with (s @ r) sub"
  by (induction s sub rule: starts_with.induct) auto

lemma js_includes_Nil [simp]: "js_includes s []"
  by (cases s) auto

lemma js_includes_append: "js_includes s sub \<Longrightarrow> js_includes (s @ r) sub"
proof (induction s)
  case Nil
  then show ?case by simp
next
  case (Cons c cs)
  then show ?case using starts_with_append [of "c # cs" sub r] by auto
qed

lemma js_includes_skip:
  "c \<notin> set h \<Longrightarrow> js_includes (h @ t) (c # cs) = js_includes t (c # cs)"
  by (induction h) auto

lemma rtrim_prefix: "\<exists>r. t = rev (dropWhile P (rev t)) @ r"
proof -
  have "rev t = takeWhile P (rev t) @ dropWhile P (rev t)" by simp
  then have "t = rev (dropWhile P (rev t)) @ rev (takeWhile P (rev t))"
    by (metis rev_append rev_rev_ident)
  then show ?thesis by blast
qed

lemma js_trim_digest_line:
  assumes "hex_digest h"
  shows "\<exists>t' r. js_trim (h @ t) = h @ t' \<and> t = t' @ r"
proof -
  from assms have ne: "h \<noteq> []" by (simp add: hex_digest_def)
  then have "\<not> js_whitespace (hd h)" using hex_digest_chars(4) [OF assms] by simp
  then have l: "dropWhile js_whitespace (h @ t) = h @ t"
    using ne by (cases h) auto
  have nw: "\<not> (\<forall>x\<in>set (rev h). js_whitespace x)"
    using ne hex_digest_chars(4) [OF assms] by (cases h) auto
  have "\<not> js_whitespace (hd (rev h))"
    using ne hex_digest_chars(4) [OF assms, of "last h"] by (simp add: hd_rev)
  then have rh: "dropWhile js_whitespace (rev h) = rev h"
    using ne by (cases "rev h") auto
  obtain r where r: "t = rev (dropWhile js_whitespace (rev t)) @ r"
    using rtrim_prefix by blast
  show ?thesis
  proof (cases "\<forall>x\<in>set (rev t). js_whitespace x")
    case True
    have "js_trim (h @ t) = rev (dropWhile js_whitespace (rev t @ rev h))"
      unfolding js_trim_def l by simp
    also have "\<dots> = rev (dropWhile js_whitespace (rev h))"
      using True by (simp add: dropWhile_append)
    also have "\<dots> = h" by (simp add: rh)
    finally have "js_trim (h @ t) = h @ [] \<and> t = [] @ t" by simp
    then show ?thesis by blast
  next
    case False
    have "js_trim (h @ t) = rev (dropWhile js_whitespace (rev t @ rev h))"
      unfolding js_trim_def l by simp
    also have "\<dots> = rev (dropWhile js_whitespace (rev t) @ rev h)"
      using False by (auto simp: dropWhile_append)
    also have "\<dots> = h @ rev (dropWhile js_whitespace (rev t))" by simp
    finally have "js_trim (h @ t) = h @ rev (dropWhile js_whitespace (rev t))" .
    with r show ?thesis by blast
  qed
qed

lemma split_first_digest:
  assumes "hex_digest h" and "t' = [] \<or> hd t' = CHR '' ''"
  shows "split_first (h @ t') = h"
proof -
  have "\<forall>c\<in>set h. c \<noteq> CHR '' ''" using hex_digest_chars(1) [OF assms(1)] by blast
  then have "takeWhile (\<lambda>c. c \<noteq> CHR '' '') (h @ t') = h @ takeWhile (\<lambda>c. c \<noteq> CHR '' '') t'"
    by (simp add: takeWhile_append2)
  moreover have "takeWhile (\<lambda>c. c \<noteq> CHR '' '') t' = []"
    using assms(2) by (cases t') auto
  ultimately show ?thesis by (simp add: split_first_def)
qed

lemma parse_md5sum_line:
  assumes h: "hex_digest h" and p: "\<not> js_includes p ''No such file''"
  shows "js_trim (h @ ''  '' @ p) \<noteq> []"
    and "\<not> js_includes (js_trim (h @ ''  '' @ p)) ''No such file''"
    and "split_first (js_trim (h @ ''  '' @ p)) = h"
proof -
  obtain t' r where t: "js_trim (h @ ''  '' @ p) = h @ t'" and r: "''  '' @ p = t' @ r"
    using js_trim_digest_line [OF h] by blast
  from h have ne: "h \<noteq> []" by (simp add: hex_digest_def)
  show "js_trim (h @ ''  '' @ p) \<noteq> []" using t ne by simp
  have "t' = [] \<or> hd t' = CHR '' ''" using r by (cases t') auto
  then show "split_first (js_trim (h @ ''  '' @ p)) = h"
    using t split_first_digest [OF h] by simp
  have "\<not> js_includes (''  '' @ p) ''No such file''" using p by simp
  moreover have "js_includes (t' @ r) ''No such file'' = js_includes (''  '' @ p) ''No such file''"
    using r [symmetric] by (rule arg_cong [where f = "\<lambda>s. js_includes s ''No such file''"])
  ultimately have "\<not> js_includes (t' @ r) ''No such file''"
    by blast
  then have "\<not> js_includes t' ''No such file''"
    using js_includes_append [of t' "''No such file''" r] by blast
  moreover have "CHR ''N'' \<notin> set h" using hex_digest_chars(2) [OF h] by blast
  then have "js_includes (h @ t') ''No such file'' = js_includes t' ''No such file''"
    by (rule js_includes_skip)
  ultimately have "\<not> js_includes (h @ t') ''No such file''" by blast
  then show "\<not> js_includes (js_trim (h @ ''  '' @ p)) ''No such file''"
    unfolding t .
qed

lemma getFileHash_present:
  assumes "shell_fault e ser (Md5sum p) = None" and "device_files w ser p = Some h"
    and "hex_digest h" and "\<not> js_includes p ''No such file''"
  shows "getFileHash e ser p w = Inr (Some h)"
proof -
  have s: "shell e ser (Md5sum p) w = Inr (js_trim (h @ ''  '' @ p), w)"
    using assms(1,2) by (simp add: shell_def device_output_def device_effect_def)
  show ?thesis
    unfolding getFileHash_def s
    using parse_md5sum_line [OF assms(3,4)] by (simp del: append.simps)
qed

lemma getFileHash_absent:
  assumes "device_files w ser p = None"
  shows "getFileHash e ser p w = Inr None"
  using assms
  by (simp add: getFileHash_def shell_def device_output_def js_trim_def split: option.splits)

lemma getFileHash_fault:
  assumes "shell_fault e ser (Md5sum p) = Some err"
  shows "getFileHash e ser p w = Inr None"
  using assms by (simp add: getFileHash_def shell_def)

lemma getFileHash_never_throws: "\<exists>r. getFileHash e ser p w = Inr r"
  by (simp add: getFileHash_def split: sum.splits prod.splits)

section \<open>Unfolding executeSync\<close>

lemma example_preflight:
  "preflight_ok (example_env mode cap photos md5) ''m1'' (example_mapping mode cap) example_source
     example_device photos"
  by (simp add: preflight_ok_def example_env_def getMapping_def getSource_def getDevice_def
      example_mapping_def example_source_def example_device_def)

lemma executeSync_after_preflight:
  assumes "preflight_ok e mid mapping sourceRecord device sourcePhotos"
  shows "executeSync e mid w =
     (let photos = photosToSync mapping sourcePhotos;
          syncedPhotos = getSyncedPhotos mid w;
          rw2 = sync_photos e device mid (temp_dir e mid) (map sourcePhotoId syncedPhotos) photos
                  (new_result mid, w);
          rw3 = removal_pass e mapping device photos syncedPhotos rw2
      in case updateLastSync e (snd rw3) of
           Inl err \<Rightarrow> ((fst rw3)\<lparr>errors := errors (fst rw3) @ [''Sync failed: '' @ message err]\<rparr>, snd rw3)
         | Inr w4 \<Rightarrow> ((fst rw3)\<lparr>success := (errors (fst rw3) = [])\<rparr>, rm_tempDir e (temp_dir e mid) w4))"
  using assms
  by (simp add: preflight_ok_def executeSync_def sync_body_def createSource_def ensureDirectory_def
      shell_def device_effect_def Let_def split_beta split: sum.splits)

section \<open>The removal pass\<close>

lemma remove_synced_keeps_absent:
  "device_files (snd rw) ser p = None \<Longrightarrow>
   device_files (snd (remove_synced e device s rw)) ser p = None"
  by (auto simp add: remove_synced_def deleteFile_def shell_def device_effect_def deleteSyncedPhoto_def
      split: option.splits)

lemma remove_synced_deletes:
  "shell_fault e (serial device) (RmF (devicePath s)) = None \<Longrightarrow>
   device_files (snd (remove_synced e device s rw)) (serial device) (devicePath s) = None"
  by (simp add: remove_synced_def deleteFile_def shell_def device_effect_def deleteSyncedPhoto_def
      split: option.splits)

lemma remove_all_keeps_absent:
  "device_files (snd rw) ser p = None \<Longrightarrow>
   device_files (snd (remove_all e device rows rw)) ser p = None"
  by (induction rows arbitrary: rw) (simp_all add: remove_synced_keeps_absent)

lemma remove_all_deletes:
  "s \<in> set rows \<Longrightarrow> shell_fault e (serial device) (RmF (devicePath s)) = None \<Longrightarrow>
   device_files (snd (remove_all e device rows rw)) (serial device) (devicePath s) = None"
proof (induction rows arbitrary: rw)
  case Nil
  then show ?case by simp
next
  case (Cons r rows)
  show ?case
  proof (cases "s = r")
    case True
    then show ?thesis
      using Cons.prems(2) by (simp add: remove_all_keeps_absent remove_synced_deletes)
  next
    case False
    then show ?thesis using Cons by simp
  qed
qed

lemma remove_synced_keeps_row:
  "keep \<in> set (synced_photos (snd rw)) \<Longrightarrow> row_id keep \<noteq> row_id s \<Longrightarrow>
   keep \<in> set (synced_photos (snd (remove_synced e device s rw)))"
  by (simp add: remove_synced_def deleteFile_def shell_def device_effect_def deleteSyncedPhoto_def
      split: option.splits)

lemma remove_all_keeps_row:
  "keep \<in> set (synced_photos (snd rw)) \<Longrightarrow> row_id keep \<notin> row_id ` set rows \<Longrightarrow>
   keep \<in> set (synced_photos (snd (remove_all e device rows rw)))"
  by (induction rows arbitrary: rw) (simp_all add: remove_synced_keeps_row)

lemma distinct_row_ids:
  "distinct (map row_id rows) \<Longrightarrow> a \<in> set rows \<Longrightarrow> b \<in> set rows \<Longrightarrow> row_id a = row_id b \<Longrightarrow> a = b"
  by (meson distinct_map inj_onD)

section \<open>The removal pass with failing deletes\<close>




section \<open>One iteration of the addition pass\<close>

lemma getFileHash_temp_files [simp]:
  "getFileHash e ser p (w\<lparr>temp_files := t\<rparr>) = getFileHash e ser p w"
  by (cases "shell_fault e ser (Md5sum p)")
     (simp_all add: getFileHash_def shell_def device_output_def device_effect_def)

lemma cleanup_temp_only: "\<exists>t. cleanup e p w = w\<lparr>temp_files := t\<rparr>"
proof (cases "unlink_fault e p")
  case True
  then have "cleanup e p w = w\<lparr>temp_files := temp_files w\<rparr>" by (simp add: cleanup_def)
  then show ?thesis by blast
next
  case False
  then have "cleanup e p w = w\<lparr>temp_files := removeAll p (temp_files w)\<rparr>"
    by (simp add: cleanup_def)
  then show ?thesis by blast
qed

lemma sync_photo_known:
  "photo_id photo \<in> set ids \<Longrightarrow>
   sync_photo e device mid tempDir ids photo (result, w)
     = (result\<lparr>photosSkipped := photosSkipped result + 1\<rparr>, w)"
  by (simp add: sync_photo_def try_photo_def)


lemma prepared_steps:
  assumes "prepared e tempDir photo = Some (dl, pr)"
  shows "source_download e photo tempDir = Inr dl" and "process_result e dl = Inr pr"
    and "read_fault e (out_path pr) = None"
  using assms by (auto simp add: prepared_def split: sum.splits option.splits)

lemma sync_photo_match:
  assumes "photo_id photo \<notin> set ids" and "prepared e tempDir photo = Some (dl, pr)"
    and "getFileHash e (serial device) (remote_path device (file_md5 e (out_path pr)) (out_format pr)) w
           = Inr (Some (file_md5 e (out_path pr)))"
  shows "\<exists>t. sync_photo e device mid tempDir ids photo (result, w)
           = (result\<lparr>photosSkipped := photosSkipped result + 1\<rparr>, w\<lparr>temp_files := t\<rparr>)"
proof -
  let ?w2 = "w\<lparr>temp_files := add_file (out_path pr) (add_file dl (temp_files w))\<rparr>"
  have "sync_photo e device mid tempDir ids photo (result, w)
      = (result\<lparr>photosSkipped := photosSkipped result + 1\<rparr>,
         cleanup e (out_path pr) (cleanup e dl ?w2))"
    using assms(1,3) prepared_steps [OF assms(2)]
    by (simp add: sync_photo_def try_photo_def downloadPhoto_def processImage_def computeHash_def)
  moreover obtain t1 where "cleanup e dl ?w2 = ?w2\<lparr>temp_files := t1\<rparr>"
    using cleanup_temp_only by blast
  moreover obtain t2 where "cleanup e (out_path pr) (?w2\<lparr>temp_files := t1\<rparr>) = ?w2\<lparr>temp_files := t1, temp_files := t2\<rparr>"
    using cleanup_temp_only by blast
  ultimately have "sync_photo e device mid tempDir ids photo (result, w)
      = (result\<lparr>photosSkipped := photosSkipped result + 1\<rparr>, w\<lparr>temp_files := t2\<rparr>)"
    by simp
  then show ?thesis by blast
qed

lemma sync_photo_push:
  assumes "photo_id photo \<notin> set ids" and "prepared e tempDir photo = Some (dl, pr)"
    and "getFileHash e (serial device) (remote_path device (file_md5 e (out_path pr)) (out_format pr)) w
           \<noteq> Inr (Some (file_md5 e (out_path pr)))"
    and "insert_fault e (photo_id photo) = None"
  shows "\<exists>t msg. sync_photo e device mid tempDir ids photo (result, w) =
     (case push_faults e (serial device) (out_path pr)
             (remote_path device (file_md5 e (out_path pr)) (out_format pr)) of
        NoFault \<Rightarrow>
          (result\<lparr>photosAdded := photosAdded result + 1\<rparr>,
           w\<lparr>synced_photos :=
                filter (\<lambda>r. row_id r \<noteq> next_row_id w \<and>
                             \<not> (row_mappingId r = mid \<and> sourcePhotoId r = photo_id photo))
                  (synced_photos w)
                @ [\<lparr>row_id = next_row_id w, row_mappingId = mid, sourcePhotoId = photo_id photo,
                    sourcePath = photo_path photo,
                    devicePath = remote_path device (file_md5 e (out_path pr)) (out_format pr),
                    fileHash = file_md5 e (out_path pr), fileSize = out_size pr\<rparr>],
              next_row_id := Suc (next_row_id w),
              device_files := (device_files w)(serial device := (device_files w (serial device))
                 (remote_path device (file_md5 e (out_path pr)) (out_format pr) \<mapsto> file_md5 e (out_path pr))),
              temp_files := t\<rparr>)
      | ConnectFault err \<Rightarrow> (result\<lparr>errors := errors result @ [msg]\<rparr>, w\<lparr>temp_files := t\<rparr>)
      | TransferFault err \<Rightarrow> (result\<lparr>errors := errors result @ [msg]\<rparr>, w\<lparr>temp_files := t\<rparr>))"
proof -
  let ?w2 = "w\<lparr>temp_files := add_file (out_path pr) (add_file dl (temp_files w))\<rparr>"
  let ?p = "remote_path device (file_md5 e (out_path pr)) (out_format pr)"
  obtain existing where ex: "getFileHash e (serial device) ?p w = Inr existing"
    using getFileHash_never_throws by blast
  with assms(3) have ne: "existing \<noteq> Some (file_md5 e (out_path pr))" by simp
  show ?thesis
  proof (cases "push_faults e (serial device) (out_path pr) ?p")
    case NoFault
    let ?w3 = "?w2\<lparr>device_files := (device_files w)(serial device := (device_files w (serial device))
                 (?p \<mapsto> file_md5 e (out_path pr)))\<rparr>"
    let ?w4 = "?w3\<lparr>synced_photos :=
                filter (\<lambda>r. row_id r \<noteq> next_row_id w \<and>
                             \<not> (row_mappingId r = mid \<and> sourcePhotoId r = photo_id photo))
                  (synced_photos w)
                @ [\<lparr>row_id = next_row_id w, row_mappingId = mid, sourcePhotoId = photo_id photo,
                    sourcePath = photo_path photo, devicePath = ?p,
                    fileHash = file_md5 e (out_path pr), fileSize = out_size pr\<rparr>],
              next_row_id := Suc (next_row_id w)\<rparr>"
    have "sync_photo e device mid tempDir ids photo (result, w)
        = (result\<lparr>photosAdded := photosAdded result + 1\<rparr>, cleanup e (out_path pr) (cleanup e dl ?w4))"
      using assms(1,4) prepared_steps [OF assms(2)] ex ne NoFault
      by (simp add: sync_photo_def try_photo_def downloadPhoto_def processImage_def computeHash_def
          pushFile_def recordSyncedPhoto_def)
    moreover obtain t1 where "cleanup e dl ?w4 = ?w4\<lparr>temp_files := t1\<rparr>"
      using cleanup_temp_only by blast
    moreover obtain t2 where "cleanup e (out_path pr) (?w4\<lparr>temp_files := t1\<rparr>) = ?w4\<lparr>temp_files := t1, temp_files := t2\<rparr>"
      using cleanup_temp_only by blast
    ultimately have "sync_photo e device mid tempDir ids photo (result, w)
        = (result\<lparr>photosAdded := photosAdded result + 1\<rparr>, ?w4\<lparr>temp_files := t2\<rparr>)"
      by simp
    then show ?thesis
      by (intro exI [of _ t2] exI [of _ "[]"]) (simp add: NoFault)
  next
    case (ConnectFault err)
    have "sync_photo e device mid tempDir ids photo (result, w)
        = (result\<lparr>errors := errors result @ [''Failed to push '' @ photo_name photo @ '': '' @ message err]\<rparr>,
           cleanup e (out_path pr) (cleanup e dl ?w2))"
      using assms(1,4) prepared_steps [OF assms(2)] ex ne ConnectFault
      by (simp add: sync_photo_def try_photo_def downloadPhoto_def processImage_def computeHash_def
          pushFile_def)
    moreover obtain t1 where "cleanup e dl ?w2 = ?w2\<lparr>temp_files := t1\<rparr>"
      using cleanup_temp_only by blast
    moreover obtain t2 where "cleanup e (out_path pr) (?w2\<lparr>temp_files := t1\<rparr>) = ?w2\<lparr>temp_files := t1, temp_files := t2\<rparr>"
      using cleanup_temp_only by blast
    ultimately have "sync_photo e device mid tempDir ids photo (result, w)
        = (result\<lparr>errors := errors result @ [''Failed to push '' @ photo_name photo @ '': '' @ message err]\<rparr>,
           w\<lparr>temp_files := t2\<rparr>)"
      by simp
    then show ?thesis
      by (intro exI [of _ t2] exI [of _ "''Failed to push '' @ photo_name photo @ '': '' @ message err"])
         (simp add: ConnectFault)
  next
    case (TransferFault err)
    have "sync_photo e device mid tempDir ids photo (result, w)
        = (result\<lparr>errors := errors result @ [''Error processing '' @ photo_name photo @ '': '' @ message err]\<rparr>,
           ?w2)"
      using assms(1,4) prepared_steps [OF assms(2)] ex ne TransferFault
      by (simp add: sync_photo_def try_photo_def downloadPhoto_def processImage_def computeHash_def
          pushFile_def)
    then show ?thesis
      by (intro exI [of _ "add_file (out_path pr) (add_file dl (temp_files w))"]
            exI [of _ "''Error processing '' @ photo_name photo @ '': '' @ message err"])
         (simp add: TransferFault)
  qed
qed

lemma matches_remote_getFileHash:
  assumes "prepared e tempDir q = Some (dl, pr)" and "matches_remote e device tempDir w q"
  shows "getFileHash e (serial device) (remote_path device (file_md5 e (out_path pr)) (out_format pr)) w
           = Inr (Some (file_md5 e (out_path pr)))"
  using assms by (simp add: matches_remote_def getFileHash_present)

lemma sync_photo_matching:
  assumes "photo_id q \<notin> set ids" and "matches_remote e device tempDir w q"
  shows "\<exists>t. sync_photo e device mid tempDir ids q (result, w)
           = (result\<lparr>photosSkipped := photosSkipped result + 1\<rparr>, w\<lparr>temp_files := t\<rparr>)"
proof -
  obtain dl pr where p: "prepared e tempDir q = Some (dl, pr)"
    using assms(2) by (cases "prepared e tempDir q") (auto simp add: matches_remote_def)
  show ?thesis
    using sync_photo_match [OF assms(1) p matches_remote_getFileHash [OF p assms(2)]] .
qed

lemma matches_remote_iff:
  "matches_remote e device tempDir w q \<longleftrightarrow>
     (\<exists>h t. photo_digest e tempDir q = Some h \<and> photo_target e device tempDir q = Some t \<and>
        shell_fault e (serial device) (Md5sum t) = None \<and> device_files w (serial device) t = Some h \<and>
        hex_digest h \<and> \<not> js_includes t ''No such file'')"
  by (cases "prepared e tempDir q") (auto simp add: matches_remote_def photo_digest_def photo_target_def)

lemma sync_photo_accounts:
  "photosAdded (fst (sync_photo e device mid tempDir ids p (result, w)))
     + photosSkipped (fst (sync_photo e device mid tempDir ids p (result, w)))
     + length (errors (fst (sync_photo e device mid tempDir ids p (result, w))))
   = photosAdded result + photosSkipped result + length (errors result) + 1"
  by (simp add: sync_photo_def try_photo_def downloadPhoto_def processImage_def computeHash_def
      pushFile_def recordSyncedPhoto_def
      split: sum.splits option.splits prod.splits push_fault.splits)

lemma sync_photos_accounts:
  "photosAdded (fst (sync_photos e device mid tempDir ids ps rw))
     + photosSkipped (fst (sync_photos e device mid tempDir ids ps rw))
     + length (errors (fst (sync_photos e device mid tempDir ids ps rw)))
   = photosAdded (fst rw) + photosSkipped (fst rw) + length (errors (fst rw)) + length ps"
proof (induction ps arbitrary: rw)
  case Nil
  then show ?case by simp
next
  case (Cons p ps)
  show ?case
    using Cons.IH [of "sync_photo e device mid tempDir ids p rw"]
      sync_photo_accounts [of e device mid tempDir ids p "fst rw" "snd rw"]
    by simp
qed

section \<open>The addition pass over new photos\<close>

lemma ids_fresh_temp_files [simp]: "ids_fresh (w\<lparr>temp_files := t\<rparr>) = ids_fresh w"
  by (simp add: ids_fresh_def)

lemma filter_fresh_row:
  assumes "ids_fresh w"
    and "\<forall>r\<in>set (synced_photos w). row_mappingId r = mid \<longrightarrow> sourcePhotoId r \<noteq> pid"
  shows "filter (\<lambda>r. row_id r \<noteq> next_row_id w \<and> \<not> (row_mappingId r = mid \<and> sourcePhotoId r = pid))
           (synced_photos w) = synced_photos w"
  using assms by (auto simp add: ids_fresh_def list_all_iff filter_id_conv)

lemma addition_pass_new_photos:
  assumes "\<forall>p\<in>set ps. photo_id p \<notin> set ids \<longrightarrow> prepared e tempDir p \<noteq> None"
    and "distinct (map photo_id (filter (\<lambda>p. photo_id p \<notin> set ids) ps))"
    and "distinct (map (photo_target e device tempDir) (filter (\<lambda>p. photo_id p \<notin> set ids) ps))"
    and "\<forall>p\<in>set ps. photo_id p \<notin> set ids \<longrightarrow>
           (\<forall>t. photo_target e device tempDir p = Some t \<longrightarrow> device_files w (serial device) t = None)"
    and "\<forall>p\<in>set ps. photo_id p \<notin> set ids \<longrightarrow> insert_fault e (photo_id p) = None"
    and "ids_fresh w"
    and "\<forall>r\<in>set (synced_photos w). row_mappingId r = mid \<longrightarrow>
           sourcePhotoId r \<notin> photo_id ` set (filter (\<lambda>p. photo_id p \<notin> set ids) ps)"
  shows "\<exists>rows.
      synced_photos (snd (sync_photos e device mid tempDir ids ps (result, w))) = synced_photos w @ rows \<and>
      map sourcePhotoId rows
        = map photo_id (filter (pushed e device tempDir) (filter (\<lambda>p. photo_id p \<notin> set ids) ps)) \<and>
      list_all (\<lambda>r. row_mappingId r = mid) rows \<and>
      photosAdded (fst (sync_photos e device mid tempDir ids ps (result, w)))
        = photosAdded result
          + length (filter (pushed e device tempDir) (filter (\<lambda>p. photo_id p \<notin> set ids) ps)) \<and>
      photosSkipped (fst (sync_photos e device mid tempDir ids ps (result, w)))
        = photosSkipped result + length (filter (\<lambda>p. photo_id p \<in> set ids) ps) \<and>
      photosRemoved (fst (sync_photos e device mid tempDir ids ps (result, w))) = photosRemoved result \<and>
      length (errors (fst (sync_photos e device mid tempDir ids ps (result, w))))
        = length (errors result)
          + length (filter (\<lambda>p. \<not> pushed e device tempDir p) (filter (\<lambda>p. photo_id p \<notin> set ids) ps))"
  using assms
proof (induction ps arbitrary: result w)
  case Nil
  then show ?case by simp
next
  case (Cons p ps)
  show ?case
  proof (cases "photo_id p \<in> set ids")
    case True
    have step: "sync_photo e device mid tempDir ids p (result, w)
        = (result\<lparr>photosSkipped := photosSkipped result + 1\<rparr>, w)"
      using True by (rule sync_photo_known)
    obtain rows where
      "synced_photos (snd (sync_photos e device mid tempDir ids ps
          (result\<lparr>photosSkipped := photosSkipped result + 1\<rparr>, w))) = synced_photos w @ rows \<and>
      map sourcePhotoId rows
        = map photo_id (filter (pushed e device tempDir) (filter (\<lambda>p. photo_id p \<notin> set ids) ps)) \<and>
      list_all (\<lambda>r. row_mappingId r = mid) rows \<and>
      photosAdded (fst (sync_photos e device mid tempDir ids ps
          (result\<lparr>photosSkipped := photosSkipped result + 1\<rparr>, w)))
        = photosAdded (result\<lparr>photosSkipped := photosSkipped result + 1\<rparr>)
          + length (filter (pushed e device tempDir) (filter (\<lambda>p. photo_id p \<notin> set ids) ps)) \<and>
      photosSkipped (fst (sync_photos e device mid tempDir ids ps
          (result\<lparr>photosSkipped := photosSkipped result + 1\<rparr>, w)))
        = photosSkipped (result\<lparr>photosSkipped := photosSkipped result + 1\<rparr>)
          + length (filter (\<lambda>p. photo_id p \<in> set ids) ps) \<and>
      photosRemoved (fst (sync_photos e device mid tempDir ids ps
          (result\<lparr>photosSkipped := photosSkipped result + 1\<rparr>, w)))
        = photosRemoved (result\<lparr>photosSkipped := photosSkipped result + 1\<rparr>) \<and>
      length (errors (fst (sync_photos e device mid tempDir ids ps
          (result\<lparr>photosSkipped := photosSkipped result + 1\<rparr>, w))))
        = length (errors (result\<lparr>photosSkipped := photosSkipped result + 1\<rparr>))
          + length (filter (\<lambda>p. \<not> pushed e device tempDir p) (filter (\<lambda>p. photo_id p \<notin> set ids) ps))"
      using Cons.IH [of w "result\<lparr>photosSkipped := photosSkipped result + 1\<rparr>"] Cons.prems True
      by auto
    then show ?thesis
      using True by (intro exI [of _ rows]) (simp add: step)
  next
    case False
    then obtain dl pr where prep: "prepared e tempDir p = Some (dl, pr)"
      using Cons.prems(1) by auto
    let ?h = "file_md5 e (out_path pr)"
    let ?t = "remote_path device ?h (out_format pr)"
    have tg: "photo_target e device tempDir p = Some ?t"
      by (simp add: photo_target_def prep)
    have "device_files w (serial device) ?t = None"
      using Cons.prems(4) False tg by simp
    then have nomatch: "getFileHash e (serial device) ?t w \<noteq> Inr (Some ?h)"
      by (simp add: getFileHash_absent)
    have ins: "insert_fault e (photo_id p) = None"
      using Cons.prems(5) False by simp
    have pnew: "\<forall>r\<in>set (synced_photos w). row_mappingId r = mid \<longrightarrow> sourcePhotoId r \<noteq> photo_id p"
      using Cons.prems(7) False by auto
    have flt: "filter (\<lambda>r. row_id r \<noteq> next_row_id w \<and> \<not> (row_mappingId r = mid \<and> sourcePhotoId r = photo_id p))
           (synced_photos w) = synced_photos w"
      using Cons.prems(6) pnew by (rule filter_fresh_row)
    obtain t msg where step: "sync_photo e device mid tempDir ids p (result, w) =
     (case push_faults e (serial device) (out_path pr) ?t of
        NoFault \<Rightarrow>
          (result\<lparr>photosAdded := photosAdded result + 1\<rparr>,
           w\<lparr>synced_photos :=
                synced_photos w
                @ [\<lparr>row_id = next_row_id w, row_mappingId = mid, sourcePhotoId = photo_id p,
                    sourcePath = photo_path p, devicePath = ?t, fileHash = ?h, fileSize = out_size pr\<rparr>],
              next_row_id := Suc (next_row_id w),
              device_files := (device_files w)(serial device := (device_files w (serial device))(?t \<mapsto> ?h)),
              temp_files := t\<rparr>)
      | ConnectFault err \<Rightarrow> (result\<lparr>errors := errors result @ [msg]\<rparr>, w\<lparr>temp_files := t\<rparr>)
      | TransferFault err \<Rightarrow> (result\<lparr>errors := errors result @ [msg]\<rparr>, w\<lparr>temp_files := t\<rparr>))"
      using sync_photo_push [OF False prep nomatch ins, of mid result] unfolding flt by blast
    have tail1: "\<forall>q\<in>set ps. photo_id q \<notin> set ids \<longrightarrow> prepared e tempDir q \<noteq> None"
      and tail2: "distinct (map photo_id (filter (\<lambda>p. photo_id p \<notin> set ids) ps))"
      and tail3: "distinct (map (photo_target e device tempDir) (filter (\<lambda>p. photo_id p \<notin> set ids) ps))"
      and tail5: "\<forall>q\<in>set ps. photo_id q \<notin> set ids \<longrightarrow> insert_fault e (photo_id q) = None"
      using Cons.prems(1,2,3,5) False by simp_all
    have other_ids: "photo_id p \<notin> photo_id ` set (filter (\<lambda>p. photo_id p \<notin> set ids) ps)"
      using Cons.prems(2) False by simp
    have other_tg: "\<forall>q\<in>set ps. photo_id q \<notin> set ids \<longrightarrow> photo_target e device tempDir q \<noteq> Some ?t"
      using Cons.prems(3) False tg by (auto simp add: image_iff)
    show ?thesis
    proof (cases "push_faults e (serial device) (out_path pr) ?t = NoFault")
      case True
      let ?row = "\<lparr>row_id = next_row_id w, row_mappingId = mid, sourcePhotoId = photo_id p,
                    sourcePath = photo_path p, devicePath = ?t, fileHash = ?h, fileSize = out_size pr\<rparr>"
      let ?w1 = "w\<lparr>synced_photos := synced_photos w @ [?row],
              next_row_id := Suc (next_row_id w),
              device_files := (device_files w)(serial device := (device_files w (serial device))(?t \<mapsto> ?h)),
              temp_files := t\<rparr>"
      let ?r1 = "result\<lparr>photosAdded := photosAdded result + 1\<rparr>"
      have step1: "sync_photo e device mid tempDir ids p (result, w) = (?r1, ?w1)"
        using step True by simp
      have pu: "pushed e device tempDir p"
        using True by (simp add: pushed_def photo_push_def prep)
      have a4: "\<forall>q\<in>set ps. photo_id q \<notin> set ids \<longrightarrow>
           (\<forall>t. photo_target e device tempDir q = Some t \<longrightarrow> device_files ?w1 (serial device) t = None)"
        using Cons.prems(4) other_tg by auto
      have a6: "ids_fresh ?w1"
        using Cons.prems(6) by (auto simp add: ids_fresh_def list_all_iff)
      have a7: "\<forall>r\<in>set (synced_photos ?w1). row_mappingId r = mid \<longrightarrow>
           sourcePhotoId r \<notin> photo_id ` set (filter (\<lambda>p. photo_id p \<notin> set ids) ps)"
        using Cons.prems(7) other_ids False by auto
      obtain rows where rows: "synced_photos (snd (sync_photos e device mid tempDir ids ps (?r1, ?w1)))
            = synced_photos ?w1 @ rows"
        "map sourcePhotoId rows
          = map photo_id (filter (pushed e device tempDir) (filter (\<lambda>p. photo_id p \<notin> set ids) ps))"
        "list_all (\<lambda>r. row_mappingId r = mid) rows"
        "photosAdded (fst (sync_photos e device mid tempDir ids ps (?r1, ?w1)))
          = photosAdded ?r1
            + length (filter (pushed e device tempDir) (filter (\<lambda>p. photo_id p \<notin> set ids) ps))"
        "photosSkipped (fst (sync_photos e device mid tempDir ids ps (?r1, ?w1)))
          = photosSkipped ?r1 + length (filter (\<lambda>p. photo_id p \<in> set ids) ps)"
        "photosRemoved (fst (sync_photos e device mid tempDir ids ps (?r1, ?w1))) = photosRemoved ?r1"
        "length (errors (fst (sync_photos e device mid tempDir ids ps (?r1, ?w1))))
          = length (errors ?r1)
            + length (filter (\<lambda>p. \<not> pushed e device tempDir p) (filter (\<lambda>p. photo_id p \<notin> set ids) ps))"
        using Cons.IH [OF tail1 tail2 tail3 a4 tail5 a6 a7, of ?r1] by blast
      show ?thesis
        using rows False pu
        by (intro exI [of _ "?row # rows"]) (simp add: step1)
    next
      case fault: False
      then obtain err where "push_faults e (serial device) (out_path pr) ?t = ConnectFault err
          \<or> push_faults e (serial device) (out_path pr) ?t = TransferFault err"
        by (cases "push_faults e (serial device) (out_path pr) ?t") auto
      let ?w1 = "w\<lparr>temp_files := t\<rparr>"
      let ?r1 = "result\<lparr>errors := errors result @ [msg]\<rparr>"
      have step1: "sync_photo e device mid tempDir ids p (result, w) = (?r1, ?w1)"
        using step \<open>push_faults e (serial device) (out_path pr) ?t = ConnectFault err
          \<or> push_faults e (serial device) (out_path pr) ?t = TransferFault err\<close> by auto
      have pu: "\<not> pushed e device tempDir p"
        using fault by (simp add: pushed_def photo_push_def prep)
      have a4: "\<forall>q\<in>set ps. photo_id q \<notin> set ids \<longrightarrow>
           (\<forall>t. photo_target e device tempDir q = Some t \<longrightarrow> device_files ?w1 (serial device) t = None)"
        using Cons.prems(4) by auto
      have a6: "ids_fresh ?w1"
        using Cons.prems(6) by simp
      have a7: "\<forall>r\<in>set (synced_photos ?w1). row_mappingId r = mid \<longrightarrow>
           sourcePhotoId r \<notin> photo_id ` set (filter (\<lambda>p. photo_id p \<notin> set ids) ps)"
        using Cons.prems(7) False by auto
      obtain rows where rows: "synced_photos (snd (sync_photos e device mid tempDir ids ps (?r1, ?w1)))
            = synced_photos ?w1 @ rows"
        "map sourcePhotoId rows
          = map photo_id (filter (pushed e device tempDir) (filter (\<lambda>p. photo_id p \<notin> set ids) ps))"
        "list_all (\<lambda>r. row_mappingId r = mid) rows"
        "photosAdded (fst (sync_photos e device mid tempDir ids ps (?r1, ?w1)))
          = photosAdded ?r1
            + length (filter (pushed e device tempDir) (filter (\<lambda>p. photo_id p \<notin> set ids) ps))"
        "photosSkipped (fst (sync_photos e device mid tempDir ids ps (?r1, ?w1)))
          = photosSkipped ?r1 + length (filter (\<lambda>p. photo_id p \<in> set ids) ps)"
        "photosRemoved (fst (sync_photos e device mid tempDir ids ps (?r1, ?w1))) = photosRemoved ?r1"
        "length (errors (fst (sync_photos e device mid tempDir ids ps (?r1, ?w1))))
          = length (errors ?r1)
            + length (filter (\<lambda>p. \<not> pushed e device tempDir p) (filter (\<lambda>p. photo_id p \<notin> set ids) ps))"
        using Cons.IH [OF tail1 tail2 tail3 a4 tail5 a6 a7, of ?r1] by blast
      show ?thesis
        using rows False pu
        by (intro exI [of _ rows]) (simp add: step1)
    qed
  qed
qed

lemma identical_photos_one_entry:
  assumes "photo_id p \<notin> set ids" and "photo_id q \<notin> set ids"
    and "pushed e device tempDir p"
    and "photo_digest e tempDir p = Some h" and "photo_digest e tempDir q = Some h"
    and "photo_target e device tempDir p = Some t" and "photo_target e device tempDir q = Some t"
    and "hex_digest h" and "\<not> js_includes t ''No such file''"
    and "shell_fault e (serial device) (Md5sum t) = None"
    and "device_files w (serial device) t = None"
    and "insert_fault e (photo_id p) = None"
    and "ids_fresh w"
    and "\<forall>r\<in>set (synced_photos w). row_mappingId r = mid \<longrightarrow> sourcePhotoId r \<noteq> photo_id p"
  shows "photosAdded (fst (sync_photos e device mid tempDir ids [p, q] (result, w))) = photosAdded result + 1 \<and>
     photosSkipped (fst (sync_photos e device mid tempDir ids [p, q] (result, w))) = photosSkipped result + 1 \<and>
     errors (fst (sync_photos e device mid tempDir ids [p, q] (result, w))) = errors result \<and>
     map sourcePhotoId (synced_photos (snd (sync_photos e device mid tempDir ids [p, q] (result, w))))
       = map sourcePhotoId (synced_photos w) @ [photo_id p] \<and>
     device_files (snd (sync_photos e device mid tempDir ids [p, q] (result, w)))
       = (device_files w)(serial device := (device_files w (serial device))(t \<mapsto> h))"
proof -
  obtain dl pr where prep: "prepared e tempDir p = Some (dl, pr)"
    using assms(3) by (cases "prepared e tempDir p") (auto simp add: pushed_def photo_push_def)
  have h: "file_md5 e (out_path pr) = h"
    using assms(4) prep by (simp add: photo_digest_def)
  have t: "remote_path device h (out_format pr) = t"
    using assms(6) prep by (simp add: photo_target_def h)
  have nomatch: "getFileHash e (serial device) (remote_path device (file_md5 e (out_path pr)) (out_format pr)) w
      \<noteq> Inr (Some (file_md5 e (out_path pr)))"
    using assms(11) by (simp add: getFileHash_absent h t)
  have flt: "filter (\<lambda>r. row_id r \<noteq> next_row_id w \<and> \<not> (row_mappingId r = mid \<and> sourcePhotoId r = photo_id p))
           (synced_photos w) = synced_photos w"
    using assms(13,14) by (rule filter_fresh_row)
  have nf: "push_faults e (serial device) (out_path pr) t = NoFault"
    using assms(3) prep by (simp add: pushed_def photo_push_def h t)
  let ?w1 = "\<lambda>tmp. w\<lparr>synced_photos := synced_photos w
                @ [\<lparr>row_id = next_row_id w, row_mappingId = mid, sourcePhotoId = photo_id p,
                    sourcePath = photo_path p, devicePath = t, fileHash = h, fileSize = out_size pr\<rparr>],
              next_row_id := Suc (next_row_id w),
              device_files := (device_files w)(serial device := (device_files w (serial device))(t \<mapsto> h)),
              temp_files := tmp\<rparr>"
  obtain tmp where step1: "sync_photo e device mid tempDir ids p (result, w)
      = (result\<lparr>photosAdded := photosAdded result + 1\<rparr>, ?w1 tmp)"
    using sync_photo_push [OF assms(1) prep nomatch assms(12), of mid result]
    unfolding flt h t nf by auto
  have "matches_remote e device tempDir (?w1 tmp) q"
    unfolding matches_remote_iff using assms(5,7,8,9,10) by simp
  then obtain tmp2 where step2: "sync_photo e device mid tempDir ids q
        (result\<lparr>photosAdded := photosAdded result + 1\<rparr>, ?w1 tmp)
      = (result\<lparr>photosAdded := photosAdded result + 1,
                 photosSkipped := photosSkipped (result\<lparr>photosAdded := photosAdded result + 1\<rparr>) + 1\<rparr>,
         (?w1 tmp)\<lparr>temp_files := tmp2\<rparr>)"
    using sync_photo_matching [OF assms(2), of e device tempDir "?w1 tmp" mid
        "result\<lparr>photosAdded := photosAdded result + 1\<rparr>"] by auto
  show ?thesis
    unfolding sync_photos.simps step1 step2 by simp
qed

section \<open>Runs that remove nothing\<close>

lemma executeSync_no_removal:
  assumes "preflight_ok e mid mapping sourceRecord device sourcePhotos"
    and "syncMode mapping = Mirror \<longrightarrow> toRemove (photosToSync mapping sourcePhotos) (getSyncedPhotos mid w) = []"
    and "update_fault e = None"
  shows "fst (executeSync e mid w)
      = (fst (sync_photos e device mid (temp_dir e mid) (map sourcePhotoId (getSyncedPhotos mid w))
                (photosToSync mapping sourcePhotos) (new_result mid, w)))
          \<lparr>success := (errors (fst (sync_photos e device mid (temp_dir e mid)
              (map sourcePhotoId (getSyncedPhotos mid w))
              (photosToSync mapping sourcePhotos) (new_result mid, w))) = [])\<rparr>"
    and "synced_photos (snd (executeSync e mid w))
      = synced_photos (snd (sync_photos e device mid (temp_dir e mid) (map sourcePhotoId (getSyncedPhotos mid w))
                (photosToSync mapping sourcePhotos) (new_result mid, w)))"
proof -
  let ?rw2 = "sync_photos e device mid (temp_dir e mid) (map sourcePhotoId (getSyncedPhotos mid w))
                (photosToSync mapping sourcePhotos) (new_result mid, w)"
  have r: "removal_pass e mapping device (photosToSync mapping sourcePhotos) (getSyncedPhotos mid w) ?rw2 = ?rw2"
    using assms(2) by (cases "syncMode mapping") (simp_all add: removal_pass_def)
  show "fst (executeSync e mid w) = (fst ?rw2)\<lparr>success := (errors (fst ?rw2) = [])\<rparr>"
    using assms(3)
    by (simp add: executeSync_after_preflight [OF assms(1)] Let_def r updateLastSync_def)
  show "synced_photos (snd (executeSync e mid w)) = synced_photos (snd ?rw2)"
    using assms(3)
    by (simp add: executeSync_after_preflight [OF assms(1)] Let_def r updateLastSync_def rm_tempDir_def)
qed

lemma new_photos_not_in_ledger:
  "\<forall>r\<in>set (synced_photos w). row_mappingId r = mid \<longrightarrow>
     sourcePhotoId r \<notin> photo_id ` set (filter (\<lambda>p. photo_id p \<notin> set (map sourcePhotoId (getSyncedPhotos mid w))) ps)"
  by (force simp add: getSyncedPhotos_def)

lemma getSyncedPhotos_append:
  "synced_photos w' = synced_photos w @ rows \<Longrightarrow> list_all (\<lambda>r. row_mappingId r = mid) rows \<Longrightarrow>
   getSyncedPhotos mid w' = getSyncedPhotos mid w @ rows"
  by (simp add: getSyncedPhotos_def list_all_iff filter_id_conv)

lemma executeSync_new_photos:
  assumes "preflight_ok e mid mapping sourceRecord device sourcePhotos"
    and "update_fault e = None"
    and "syncMode mapping = Mirror \<longrightarrow> toRemove (photosToSync mapping sourcePhotos) (getSyncedPhotos mid w) = []"
    and "ids_fresh w"
    and "new = filter (\<lambda>p. photo_id p \<notin> set (map sourcePhotoId (getSyncedPhotos mid w)))
                 (photosToSync mapping sourcePhotos)"
    and "distinct (map photo_id new)"
    and "\<forall>p\<in>set new. prepared e (temp_dir e mid) p \<noteq> None"
    and "distinct (map (photo_target e device (temp_dir e mid)) new)"
    and "\<forall>p\<in>set new. \<forall>t. photo_target e device (temp_dir e mid) p = Some t \<longrightarrow>
           device_files w (serial device) t = None"
    and "\<forall>p\<in>set new. insert_fault e (photo_id p) = None"
  shows "photosAdded (fst (executeSync e mid w)) = length (filter (pushed e device (temp_dir e mid)) new) \<and>
         length (errors (fst (executeSync e mid w)))
           = length (filter (\<lambda>p. \<not> pushed e device (temp_dir e mid) p) new) \<and>
         photosSkipped (fst (executeSync e mid w)) = length (photosToSync mapping sourcePhotos) - length new \<and>
         photosRemoved (fst (executeSync e mid w)) = 0 \<and>
         success (fst (executeSync e mid w)) = (errors (fst (executeSync e mid w)) = []) \<and>
         map sourcePhotoId (getSyncedPhotos mid (snd (executeSync e mid w)))
           = map sourcePhotoId (getSyncedPhotos mid w)
             @ map photo_id (filter (pushed e device (temp_dir e mid)) new)"
proof -
  let ?ids = "map sourcePhotoId (getSyncedPhotos mid w)"
  let ?ps = "photosToSync mapping sourcePhotos"
  let ?rw = "sync_photos e device mid (temp_dir e mid) ?ids ?ps (new_result mid, w)"
  have n: "filter (\<lambda>p. photo_id p \<notin> set ?ids) ?ps = new"
    using assms(5) by simp
  have h1: "\<forall>p\<in>set ?ps. photo_id p \<notin> set ?ids \<longrightarrow> prepared e (temp_dir e mid) p \<noteq> None"
    using assms(7) unfolding assms(5) by simp
  have h2: "distinct (map photo_id (filter (\<lambda>p. photo_id p \<notin> set ?ids) ?ps))"
    using assms(6) unfolding assms(5) .
  have h3: "distinct (map (photo_target e device (temp_dir e mid)) (filter (\<lambda>p. photo_id p \<notin> set ?ids) ?ps))"
    using assms(8) unfolding assms(5) .
  have h4: "\<forall>p\<in>set ?ps. photo_id p \<notin> set ?ids \<longrightarrow>
           (\<forall>t. photo_target e device (temp_dir e mid) p = Some t \<longrightarrow> device_files w (serial device) t = None)"
    using assms(9) unfolding assms(5) by simp
  have h5: "\<forall>p\<in>set ?ps. photo_id p \<notin> set ?ids \<longrightarrow> insert_fault e (photo_id p) = None"
    using assms(10) unfolding assms(5) by simp
  have h7: "\<forall>r\<in>set (synced_photos w). row_mappingId r = mid \<longrightarrow>
     sourcePhotoId r \<notin> photo_id ` set (filter (\<lambda>p. photo_id p \<notin> set ?ids) ?ps)"
    by (rule new_photos_not_in_ledger)
  obtain rows where rows:
      "synced_photos (snd ?rw) = synced_photos w @ rows"
      "map sourcePhotoId rows = map photo_id (filter (pushed e device (temp_dir e mid)) new)"
      "list_all (\<lambda>r. row_mappingId r = mid) rows"
      "photosAdded (fst ?rw) = photosAdded (new_result mid)
          + length (filter (pushed e device (temp_dir e mid)) new)"
      "photosSkipped (fst ?rw) = photosSkipped (new_result mid)
          + length (filter (\<lambda>p. photo_id p \<in> set ?ids) ?ps)"
      "photosRemoved (fst ?rw) = photosRemoved (new_result mid)"
      "length (errors (fst ?rw)) = length (errors (new_result mid))
          + length (filter (\<lambda>p. \<not> pushed e device (temp_dir e mid) p) new)"
    using addition_pass_new_photos [OF h1 h2 h3 h4 h5 assms(4) h7, of "new_result mid"]
    unfolding n by blast
  have split2: "length (filter (\<lambda>p. photo_id p \<in> set ?ids) ?ps) + length new = length ?ps"
    unfolding n [symmetric] by (rule sum_length_filter_compl)
  have led: "getSyncedPhotos mid (snd ?rw) = getSyncedPhotos mid w @ rows"
    using rows(1,3) by (rule getSyncedPhotos_append)
  have "synced_photos (snd (executeSync e mid w)) = synced_photos (snd ?rw)"
    using assms(1,3,2) by (rule executeSync_no_removal(2))
  then have led': "getSyncedPhotos mid (snd (executeSync e mid w)) = getSyncedPhotos mid w @ rows"
    using led by (simp add: getSyncedPhotos_def)
  have res: "fst (executeSync e mid w) = (fst ?rw)\<lparr>success := (errors (fst ?rw) = [])\<rparr>"
    using assms(1,3,2) by (rule executeSync_no_removal(1))
  have a: "photosAdded (fst ?rw) = length (filter (pushed e device (temp_dir e mid)) new)"
    using rows(4) by (simp add: new_result_def)
  have b: "length (errors (fst ?rw)) = length (filter (\<lambda>p. \<not> pushed e device (temp_dir e mid) p) new)"
    using rows(7) by (simp add: new_result_def)
  have c: "photosSkipped (fst ?rw) = length ?ps - length new"
    using rows(5) split2 by (simp add: new_result_def)
  have d: "photosRemoved (fst ?rw) = 0"
    using rows(6) by (simp add: new_result_def)
  show ?thesis
    by (simp add: res led' a b c d rows(2))
qed

section \<open>Two runs in a row\<close>














section \<open>What the removal pass leaves\<close>











section \<open>The addition pass with failing photos\<close>









section \<open>Temporary files\<close>











section \<open>Async calls run alone\<close>

lemma run_async_Await [simp]: "run_async (Await k) w = run_segment k w"
  by (simp add: run_segment_def split_beta)

declare run_async.simps(2) [simp del]

lemma run_segment_pair [simp]: "run_segment (\<lambda>w. (t, f w)) w = run_async t (f w)"
  by (simp add: run_segment_def)

lemma run_bind:
  "run_async (bind_async t f) w = (case run_async t w of (a, w') \<Rightarrow> run_async (f a) w')"
proof (induction t arbitrary: w)
  case (Return x)
  then show ?case by simp
next
  case (Await k)
  have "fst (k w) \<in> Basic_BNFs.fsts (k w)" by (cases "k w") simp
  then show ?case
    using Await [of "k w" "fst (k w)" "snd (k w)"] by (simp add: run_segment_def split_beta)
qed

lemma run_failed:
  "run_segment (failed result err) w
     = (result\<lparr>errors := errors result @ [''Sync failed: '' @ message err]\<rparr>, w)"
  by (simp add: failed_def run_segment_def)

lemma photo_async_run:
  "run_segment (photo_async e device mid tempDir ids photo result next) w
     = run_segment (next (fst (sync_photo e device mid tempDir ids photo (result, w))))
         (snd (sync_photo e device mid tempDir ids photo (result, w)))"
  by (simp add: photo_async_def sync_photo_def try_photo_def Let_def await_def run_segment_def
      returns_def acts_def split: sum.splits)

lemma photos_async_run:
  "run_segment (photos_async e device mid tempDir ids ps result next) w
     = run_segment (next (fst (sync_photos e device mid tempDir ids ps (result, w))))
         (snd (sync_photos e device mid tempDir ids ps (result, w)))"
proof (induction ps arbitrary: result w)
  case Nil
  then show ?case by simp
next
  case (Cons p ps)
  show ?case
    using Cons [of "fst (sync_photo e device mid tempDir ids p (result, w))"
                   "snd (sync_photo e device mid tempDir ids p (result, w))"]
    by (simp add: photo_async_run)
qed

lemma remove_async_run:
  "run_segment (remove_async e device s result next) w
     = run_segment (next (fst (remove_synced e device s (result, w))))
         (snd (remove_synced e device s (result, w)))"
  by (simp add: remove_async_def remove_synced_def Let_def await_def run_segment_def
      split: sum.splits)

lemma remove_all_async_run:
  "run_segment (remove_all_async e device rows result next) w
     = run_segment (next (fst (remove_all e device rows (result, w))))
         (snd (remove_all e device rows (result, w)))"
proof (induction rows arbitrary: result w)
  case Nil
  then show ?case by simp
next
  case (Cons s rows)
  show ?case
    using Cons [of "fst (remove_synced e device s (result, w))"
                   "snd (remove_synced e device s (result, w))"]
    by (simp add: remove_async_run)
qed

lemma removal_async_run:
  "run_segment (removal_async e mapping device P S result next) w
     = run_segment (next (fst (removal_pass e mapping device P S (result, w))))
         (snd (removal_pass e mapping device P S (result, w)))"
  by (simp add: removal_async_def removal_pass_def remove_all_async_run)

lemma finish_async_run:
  "run_segment (finish_async e mid result) w
     = (case updateLastSync e w of
          Inl err \<Rightarrow> (result\<lparr>errors := errors result @ [''Sync failed: '' @ message err]\<rparr>, w)
        | Inr w4 \<Rightarrow> (result\<lparr>success := (errors result = [])\<rparr>, rm_tempDir e (temp_dir e mid) w4))"
  by (simp add: finish_async_def failed_def await_def acts_def run_segment_def split: sum.splits)

lemma sync_body_async_run:
  "run_segment (sync_body_async e mapping sourceRecord device mid result) w
     = (case sync_body e mapping sourceRecord device mid result w of
          Inl (err, result', w') \<Rightarrow>
            (result'\<lparr>errors := errors result' @ [''Sync failed: '' @ message err]\<rparr>, w')
        | Inr rw \<Rightarrow> rw)"
proof (cases "createSource sourceRecord")
  case (Inl err)
  then show ?thesis
    by (simp add: sync_body_async_def sync_body_def run_failed)
next
  case src: (Inr u)
  show ?thesis
  proof (cases "mkdir_fault e (temp_dir e mid)")
    case (Some err)
    then show ?thesis
      using src
      by (simp add: sync_body_async_def sync_body_def await_def acts_def failed_def run_segment_def)
  next
    case None
    show ?thesis
    proof (cases "ensureDirectory e (serial device) (base_path device) w")
      case (Inl err)
      then show ?thesis
        using src None
        by (simp add: sync_body_async_def sync_body_def await_def acts_def failed_def run_segment_def)
    next
      case dir: (Inr w1)
      show ?thesis
      proof (cases "source_photos e")
        case (Inl err)
        then show ?thesis
          using src None dir
          by (simp add: sync_body_async_def sync_body_def await_def acts_def returns_def failed_def
              run_segment_def)
      next
        case (Inr sourcePhotos)
        let ?ps = "photosToSync mapping sourcePhotos"
        let ?S = "getSyncedPhotos mid w1"
        have "run_segment (sync_body_async e mapping sourceRecord device mid result) w
            = run_segment (photos_async e device mid (temp_dir e mid) (map sourcePhotoId ?S) ?ps result
               (\<lambda>result. removal_async e mapping device ?ps ?S result (finish_async e mid))) w1"
          using src None dir Inr
          by (simp add: sync_body_async_def await_def acts_def returns_def run_segment_def Let_def)
        also have "\<dots> = (case sync_body e mapping sourceRecord device mid result w of
            Inl (err, result', w') \<Rightarrow>
              (result'\<lparr>errors := errors result' @ [''Sync failed: '' @ message err]\<rparr>, w')
          | Inr rw \<Rightarrow> rw)"
          unfolding photos_async_run removal_async_run finish_async_run
          using src None dir Inr by (simp add: sync_body_def Let_def split: sum.splits)
        finally show ?thesis .
      qed
    qed
  qed
qed

lemma executeSync_async_run:
  "run_segment (executeSync_async e mid) w = executeSync e mid w"
proof -
  have "run_segment (executeSync_async e mid) w
      = (case getMapping e mid of
           None \<Rightarrow> ((new_result mid)\<lparr>errors := [''Mapping not found'']\<rparr>, w)
         | Some mapping \<Rightarrow>
          (case getSource e (sourceId mapping) of
             None \<Rightarrow> ((new_result mid)\<lparr>errors := [''Source not found'']\<rparr>, w)
           | Some sourceRecord \<Rightarrow>
            (case getDevice e (deviceId mapping) of
               None \<Rightarrow> ((new_result mid)\<lparr>errors := [''Device not found'']\<rparr>, w)
             | Some device \<Rightarrow>
                 run_segment (sync_body_async e mapping sourceRecord device mid (new_result mid)) w)))"
    by (simp add: run_segment_def executeSync_async_def Let_def split: option.splits)
  then show ?thesis
    by (simp add: executeSync_def Let_def sync_body_async_run split: option.splits)
qed

lemma triggerSync_run:
  "run_segment (triggerSync e mid) w = ((), snd (executeSync e mid w))"
proof -
  obtain promise w' where c: "executeSync_async e mid w = (promise, w')"
    by (cases "executeSync_async e mid w")
  then have "run_async promise w' = executeSync e mid w"
    using executeSync_async_run [of e mid w] by (simp add: run_segment_def)
  then show ?thesis
    by (simp add: triggerSync_def run_segment_def c run_bind split_beta)
qed

lemma scheduled_sync_run:
  "run_segment (scheduled_sync e mid) w = ((), snd (executeSync e mid w))"
proof -
  obtain promise w' where c: "executeSync_async e mid w = (promise, w')"
    by (cases "executeSync_async e mid w")
  then have "run_async promise w' = executeSync e mid w"
    using executeSync_async_run [of e mid w] by (simp add: run_segment_def)
  then show ?thesis
    by (simp add: scheduled_sync_def run_segment_def c run_bind split_beta)
qed

lemma executeSync_async_starts:
  assumes "run_starts e mid"
  shows "pending (fst (executeSync_async e mid w))" and "snd (executeSync_async e mid w) = w"
  using assms
  by (auto simp add: run_starts_def executeSync_async_def sync_body_async_def createSource_def
      await_def pending_def Let_def split: option.splits)

lemma pending_bind: "pending t \<Longrightarrow> pending (bind_async t f)"
  by (cases t) (simp_all add: pending_def)

lemma triggerSync_starts:
  assumes "run_starts e mid"
  shows "pending (fst (triggerSync e mid w))" and "snd (triggerSync e mid w) = w"
  using executeSync_async_starts [OF assms, of w]
  by (simp_all add: triggerSync_def split_beta pending_bind)

lemma scheduled_sync_starts:
  assumes "run_starts e mid"
  shows "pending (fst (scheduled_sync e mid w))" and "snd (scheduled_sync e mid w) = w"
  using executeSync_async_starts [OF assms, of w]
  by (simp_all add: scheduled_sync_def split_beta pending_bind)

lemma start_calls:
  "calls (start c rt) = calls rt @ [fst (c (world_now rt))]"
  "world_now (start c rt) = snd (c (world_now rt))"
  by (simp_all add: start_def split_beta)

lemma start_in_flight:
  "pending (fst (c (world_now rt))) \<Longrightarrow> in_flight (start c rt) = Suc (in_flight rt)"
  by (simp add: in_flight_def start_calls)

lemma resume_to_end:
  "i < length (calls rt) \<Longrightarrow> calls rt ! i = t \<Longrightarrow>
   \<exists>n. resume_all (replicate n i) rt
     = rt\<lparr>world_now := snd (run_async t (world_now rt)),
          calls := (calls rt)[i := Return (fst (run_async t (world_now rt)))]\<rparr>"
proof (induction t arbitrary: rt)
  case (Return x)
  have "(calls rt)[i := Return x] = calls rt"
    using Return by (metis list_update_id)
  then have "resume_all (replicate 0 i) rt
     = rt\<lparr>world_now := snd (run_async (Return x) (world_now rt)),
          calls := (calls rt)[i := Return (fst (run_async (Return x) (world_now rt)))]\<rparr>"
    by simp
  then show ?case by blast
next
  case (Await k)
  obtain t' w' where kw: "k (world_now rt) = (t', w')"
    by (cases "k (world_now rt)")
  let ?rt1 = "rt\<lparr>world_now := w', calls := (calls rt)[i := t']\<rparr>"
  have step: "resume i rt = ?rt1"
    using Await.prems by (simp add: resume_def kw)
  have "t' \<in> Basic_BNFs.fsts (k (world_now rt))"
    by (simp add: kw)
  moreover have "i < length (calls ?rt1)" and "calls ?rt1 ! i = t'"
    using Await.prems by simp_all
  ultimately obtain n where n: "resume_all (replicate n i) ?rt1
     = ?rt1\<lparr>world_now := snd (run_async t' (world_now ?rt1)),
            calls := (calls ?rt1)[i := Return (fst (run_async t' (world_now ?rt1)))]\<rparr>"
    using Await.IH [of "k (world_now rt)" t' ?rt1] by blast
  have "run_async (Await k) (world_now rt) = run_async t' w'"
    by (simp add: run_segment_def kw)
  then have "resume_all (replicate (Suc n) i) rt
     = rt\<lparr>world_now := snd (run_async (Await k) (world_now rt)),
          calls := (calls rt)[i := Return (fst (run_async (Await k) (world_now rt)))]\<rparr>"
    using n by (simp add: step)
  then show ?case by blast
qed

lemma start_runs_to_end:
  "\<exists>n. resume_all (replicate n (length (calls rt))) (start c rt)
     = rt\<lparr>world_now := snd (run_segment c (world_now rt)),
          calls := calls rt @ [Return (fst (run_segment c (world_now rt)))]\<rparr>"
proof -
  obtain t w' where c: "c (world_now rt) = (t, w')"
    by (cases "c (world_now rt)")
  let ?rt1 = "start c rt"
  have s: "?rt1 = rt\<lparr>world_now := w', calls := calls rt @ [t]\<rparr>"
    by (simp add: start_def c)
  have "length (calls rt) < length (calls ?rt1)" and "calls ?rt1 ! length (calls rt) = t"
    by (simp_all add: s)
  then obtain n where "resume_all (replicate n (length (calls rt))) ?rt1
     = ?rt1\<lparr>world_now := snd (run_async t (world_now ?rt1)),
            calls := (calls ?rt1)[length (calls rt) := Return (fst (run_async t (world_now ?rt1)))]\<rparr>"
    using resume_to_end by blast
  then have "resume_all (replicate n (length (calls rt))) ?rt1
     = rt\<lparr>world_now := snd (run_segment c (world_now rt)),
          calls := calls rt @ [Return (fst (run_segment c (world_now rt)))]\<rparr>"
    by (simp add: s run_segment_def c)
  then show ?thesis by blast
qed

section \<open>Claims\<close>

text \<open>
  C4, as amended. \<open>getFileHash\<close> never throws. Over a working transport it returns the
  content hash of an existing remote file (a hexadecimal digest, at a path that does not
  contain the text "No such file") and nil for a file that does not exist; when the
  transport fails it returns nil as well, so a transport failure is not raised and cannot
  be told from absence.
\<close>

theorem getFileHash_outcomes:
  "(\<exists>r. getFileHash e ser p w = Inr r) \<and>
   (shell_fault e ser (Md5sum p) = None \<and> device_files w ser p = Some h \<and> hex_digest h \<and>
      \<not> js_includes p ''No such file'' \<longrightarrow> getFileHash e ser p w = Inr (Some h)) \<and>
   (shell_fault e ser (Md5sum p) = None \<and> device_files w ser p = None \<longrightarrow>
      getFileHash e ser p w = Inr None) \<and>
   (shell_fault e ser (Md5sum p) = Some err \<longrightarrow> getFileHash e ser p w = Inr None)"
  using getFileHash_never_throws getFileHash_present getFileHash_absent getFileHash_fault
  by blast

text \<open>
  The three cases at concrete inputs: the file of \<open>world_one_file\<close> over a working
  transport, a missing file, and the same existing file with the transport down.
\<close>

theorem getFileHash_outcomes_witness:
  "getFileHash (example_env AddOnly None [] md5_same) ''SER'' ''/sdcard/F/0a.jpeg'' world_one_file
     = Inr (Some ''0a'') \<and>
   getFileHash (example_env AddOnly None [] md5_same) ''SER'' ''/sdcard/F/0b.jpeg'' world_one_file
     = Inr None \<and>
   getFileHash env_offline ''SER'' ''/sdcard/F/0a.jpeg'' world_one_file = Inr None"
proof -
  have a: "shell_fault (example_env AddOnly None [] md5_same) ''SER'' (Md5sum q) = None" for q
    by (simp add: example_env_def)
  have b: "device_files world_one_file ''SER'' ''/sdcard/F/0a.jpeg'' = Some ''0a''"
    by (simp add: world_one_file_def)
  have c: "hex_digest ''0a''"
    by (simp add: hex_digest_def is_hex_def)
  have d: "\<not> js_includes ''/sdcard/F/0a.jpeg'' ''No such file''"
    by simp
  have e: "device_files world_one_file ''SER'' ''/sdcard/F/0b.jpeg'' = None"
    by (simp add: world_one_file_def)
  have f: "shell_fault env_offline ''SER'' (Md5sum ''/sdcard/F/0a.jpeg'') = Some (Error ''timeout'')"
    by (simp add: env_offline_def)
  show ?thesis
    using getFileHash_outcomes [of "example_env AddOnly None [] md5_same" "''SER''"
            "''/sdcard/F/0a.jpeg''" world_one_file "''0a''"]
          getFileHash_outcomes [of "example_env AddOnly None [] md5_same" "''SER''"
            "''/sdcard/F/0b.jpeg''" world_one_file]
          getFileHash_outcomes [of env_offline "''SER''" "''/sdcard/F/0a.jpeg''" world_one_file
            _ "Error ''timeout''"]
          a b c d e f
    by blast
qed

text \<open>
  C4 as stated fails: with the transport down (\<open>shell\<close> throws) and the file present on
  the device, \<open>getFileHash\<close> returns nil instead of raising, the answer it gives for a file
  that does not exist.
\<close>

theorem getFileHash_transport_failure_counterexample:
  "shell env_offline ''SER'' (Md5sum ''/sdcard/F/0a.jpeg'') world_one_file = Inl (Error ''timeout'') \<and>
   device_files world_one_file ''SER'' ''/sdcard/F/0a.jpeg'' = Some ''0a'' \<and>
   getFileHash env_offline ''SER'' ''/sdcard/F/0a.jpeg'' world_one_file = Inr None"
  by (simp add: getFileHash_def shell_def env_offline_def world_one_file_def)

text \<open>
  C10, as amended. A mapping whose \<open>maxPhotos\<close> is 0 is treated as having no cap: the
  photos to sync are all the photos the source returned, and the whole body of the run is
  the one of the same mapping without a cap; an absent value does the same. The truncation
  branch is taken for every other value, a negative one included: a positive \<open>n\<close> keeps
  the first \<open>n\<close> photos, a negative \<open>n\<close> drops the last \<open>-n\<close> photos.
\<close>

theorem maxPhotos_zero_is_no_cap:
  "(maxPhotos mapping = None \<or> maxPhotos mapping = Some 0 \<longrightarrow>
      photosToSync mapping sourcePhotos = sourcePhotos) \<and>
   (maxPhotos mapping = Some 0 \<longrightarrow>
      sync_body e mapping sourceRecord device mid result w =
      sync_body e (mapping\<lparr>maxPhotos := None\<rparr>) sourceRecord device mid result w) \<and>
   (maxPhotos mapping = Some n \<and> 0 < n \<longrightarrow> photosToSync mapping sourcePhotos = take (nat n) sourcePhotos) \<and>
   (maxPhotos mapping = Some n \<and> n < 0 \<longrightarrow>
      photosToSync mapping sourcePhotos = take (length sourcePhotos - nat (- n)) sourcePhotos)"
proof -
  have a: "maxPhotos mapping = None \<or> maxPhotos mapping = Some 0 \<Longrightarrow>
      photosToSync mapping ps = ps" for ps
    by (auto simp add: photosToSync_def)
  have b: "photosToSync (mapping\<lparr>maxPhotos := None\<rparr>) ps = ps" for ps
    by (simp add: photosToSync_def)
  have c: "removal_pass e (mapping\<lparr>maxPhotos := None\<rparr>) = removal_pass e mapping"
    by (simp add: removal_pass_def fun_eq_iff)
  have d: "maxPhotos mapping = Some n \<and> 0 < n \<Longrightarrow>
      photosToSync mapping sourcePhotos = take (nat n) sourcePhotos"
    by (simp add: photosToSync_def js_slice0_def)
  have "nat (int (length sourcePhotos) + n) = length sourcePhotos - nat (- n)" if "n < 0"
    using that by linarith
  then have f: "maxPhotos mapping = Some n \<and> n < 0 \<Longrightarrow>
      photosToSync mapping sourcePhotos = take (length sourcePhotos - nat (- n)) sourcePhotos"
    by (simp add: photosToSync_def js_slice0_def)
  have "maxPhotos mapping = Some 0 \<Longrightarrow>
      sync_body e mapping sourceRecord device mid result w =
      sync_body e (mapping\<lparr>maxPhotos := None\<rparr>) sourceRecord device mid result w"
    by (simp add: sync_body_def a b c split: sum.splits option.splits)
  with a d f show ?thesis by blast
qed

text \<open>
  The values 0, 2 and -2 on a source of three photos, and the run with the value 0.
\<close>

theorem maxPhotos_zero_is_no_cap_witness:
  "photosToSync (example_mapping AddOnly (Some 0)) [photo_named ''a'', photo_named ''b'', photo_named ''c'']
     = [photo_named ''a'', photo_named ''b'', photo_named ''c''] \<and>
   photosToSync (example_mapping AddOnly (Some 2)) [photo_named ''a'', photo_named ''b'', photo_named ''c'']
     = [photo_named ''a'', photo_named ''b''] \<and>
   photosToSync (example_mapping AddOnly (Some (- 2))) [photo_named ''a'', photo_named ''b'', photo_named ''c'']
     = [photo_named ''a''] \<and>
   photosAdded (fst (executeSync
     (example_env AddOnly (Some 0) [photo_named ''a'', photo_named ''b'', photo_named ''c''] md5_by_name) ''m1'' fresh_world)) = 3"
proof -
  have a: "maxPhotos (example_mapping AddOnly (Some 0)) = Some 0"
    and b: "maxPhotos (example_mapping AddOnly (Some 2)) = Some 2"
    and b': "maxPhotos (example_mapping AddOnly (Some (- 2))) = Some (- 2)"
    by (simp_all add: example_mapping_def)
  have c: "photosAdded (fst (executeSync
     (example_env AddOnly (Some 0) [photo_named ''a'', photo_named ''b'', photo_named ''c''] md5_by_name) ''m1'' fresh_world)) = 3"
    by code_simp
  show ?thesis
    using maxPhotos_zero_is_no_cap [of "example_mapping AddOnly (Some 0)"
            "[photo_named ''a'', photo_named ''b'', photo_named ''c'']"]
          maxPhotos_zero_is_no_cap [of "example_mapping AddOnly (Some 2)"
            "[photo_named ''a'', photo_named ''b'', photo_named ''c'']" _ _ _ _ _ _ 2]
          maxPhotos_zero_is_no_cap [of "example_mapping AddOnly (Some (- 2))"
            "[photo_named ''a'', photo_named ''b'', photo_named ''c'']" _ _ _ _ _ _ "- 2"]
          a b b' c
    by simp
qed

text \<open>
  C10 as stated fails in its clause that the truncation branch is taken only for a
  strictly positive value: \<open>POST /sync/mappings\<close> stores the \<open>maxPhotos\<close> of the request
  body as it comes, a negative number is truthy, and \<open>slice(0, -1)\<close> drops the last photo.
  With -1 the run syncs two of the three photos, with -5 none, and reports success.
\<close>

theorem negative_maxPhotos_truncates_counterexample:
  "photosToSync (example_mapping AddOnly (Some (- 1))) [photo_named ''a'', photo_named ''b'', photo_named ''c'']
     = [photo_named ''a'', photo_named ''b''] \<and>
   photosAdded (fst (executeSync
     (example_env AddOnly (Some (- 1)) [photo_named ''a'', photo_named ''b'', photo_named ''c''] md5_by_name)
     ''m1'' fresh_world)) = 2 \<and>
   photosAdded (fst (executeSync
     (example_env AddOnly (Some (- 5)) [photo_named ''a'', photo_named ''b'', photo_named ''c''] md5_by_name)
     ''m1'' fresh_world)) = 0 \<and>
   success (fst (executeSync
     (example_env AddOnly (Some (- 5)) [photo_named ''a'', photo_named ''b'', photo_named ''c''] md5_by_name)
     ''m1'' fresh_world))"
proof -
  have "photosToSync (example_mapping AddOnly (Some (- 1))) [photo_named ''a'', photo_named ''b'', photo_named ''c'']
     = [photo_named ''a'', photo_named ''b'']"
    by (simp add: photosToSync_def example_mapping_def js_slice0_def)
  moreover have "photosAdded (fst (executeSync
     (example_env AddOnly (Some (- 1)) [photo_named ''a'', photo_named ''b'', photo_named ''c''] md5_by_name)
     ''m1'' fresh_world)) = 2"
    by code_simp
  moreover have "photosAdded (fst (executeSync
     (example_env AddOnly (Some (- 5)) [photo_named ''a'', photo_named ''b'', photo_named ''c''] md5_by_name)
     ''m1'' fresh_world)) = 0"
    by code_simp
  moreover have "success (fst (executeSync
     (example_env AddOnly (Some (- 5)) [photo_named ''a'', photo_named ''b'', photo_named ''c''] md5_by_name)
     ''m1'' fresh_world))"
    by code_simp
  ultimately show ?thesis by blast
qed

text \<open>
  C5, as amended. A trigger, manual (\<open>triggerSync\<close>) or from the cron task of the mapping,
  calls \<open>executeSync\<close> unconditionally, waits for its own call and returns nothing: run
  alone from a world, it leaves the world that \<open>executeSync\<close> leaves. It looks at no call
  in flight: whatever calls are suspended when the trigger comes, runs of the same mapping
  among them, they stay as they are and one more call is made; when the mapping, its
  source and its device exist this call is suspended at its first \<open>await\<close>, so that one
  more call is in flight; and that call can run to its end, doing to the world of that
  moment what \<open>executeSync\<close> does, while the others are still suspended.
\<close>

theorem trigger_always_starts_a_run:
  "run_segment (triggerSync e mid) w = ((), snd (executeSync e mid w)) \<and>
   (mid \<in> set (map fst (tasks s)) \<longrightarrow>
      run_segment (cron_fire e s mid) w = ((), snd (executeSync e mid w))) \<and>
   calls (start (triggerSync e mid) rt) = calls rt @ [fst (triggerSync e mid (world_now rt))] \<and>
   (run_starts e mid \<longrightarrow>
      in_flight (start (triggerSync e mid) rt) = Suc (in_flight rt) \<and>
      world_now (start (triggerSync e mid) rt) = world_now rt) \<and>
   (run_starts e mid \<and> mid \<in> set (map fst (tasks s)) \<longrightarrow>
      in_flight (start (cron_fire e s mid) rt) = Suc (in_flight rt) \<and>
      world_now (start (cron_fire e s mid) rt) = world_now rt) \<and>
   (\<exists>n. resume_all (replicate n (length (calls rt))) (start (triggerSync e mid) rt)
      = rt\<lparr>world_now := snd (executeSync e mid (world_now rt)), calls := calls rt @ [Return ()]\<rparr>)"
proof -
  have c: "cron_fire e s mid = scheduled_sync e mid" if "mid \<in> set (map fst (tasks s))"
    using that by (simp add: cron_fire_def fun_eq_iff)
  have 1: "run_segment (triggerSync e mid) w = ((), snd (executeSync e mid w))"
    by (rule triggerSync_run)
  have 2: "run_segment (cron_fire e s mid) w = ((), snd (executeSync e mid w))"
    if "mid \<in> set (map fst (tasks s))"
    by (simp add: c [OF that] scheduled_sync_run)
  have 3: "calls (start (triggerSync e mid) rt) = calls rt @ [fst (triggerSync e mid (world_now rt))]"
    by (rule start_calls)
  have 4: "in_flight (start (triggerSync e mid) rt) = Suc (in_flight rt) \<and>
      world_now (start (triggerSync e mid) rt) = world_now rt" if "run_starts e mid"
    using triggerSync_starts [OF that, of "world_now rt"]
    by (simp add: start_in_flight start_calls)
  have 5: "in_flight (start (cron_fire e s mid) rt) = Suc (in_flight rt) \<and>
      world_now (start (cron_fire e s mid) rt) = world_now rt"
    if "run_starts e mid" and "mid \<in> set (map fst (tasks s))"
    using scheduled_sync_starts [OF that(1), of "world_now rt"]
    by (simp add: c [OF that(2)] start_in_flight start_calls)
  have 6: "\<exists>n. resume_all (replicate n (length (calls rt))) (start (triggerSync e mid) rt)
      = rt\<lparr>world_now := snd (executeSync e mid (world_now rt)), calls := calls rt @ [Return ()]\<rparr>"
    using start_runs_to_end [of rt "triggerSync e mid"] by (simp add: triggerSync_run)
  show ?thesis using 1 2 3 4 5 6 by blast
qed

text \<open>
  Two triggers for \<open>m1\<close> in a row, each of the two kinds: two calls in flight.
\<close>

theorem trigger_always_starts_a_run_witness:
  "in_flight (start (triggerSync (example_env AddOnly None [photo_named ''a''] md5_same) ''m1'')
       (start (triggerSync (example_env AddOnly None [photo_named ''a''] md5_same) ''m1'')
          (idle_runtime fresh_world))) = 2 \<and>
   in_flight (start (cron_fire (example_env AddOnly None [photo_named ''a''] md5_same) idle_scheduler ''m1'')
       (start (triggerSync (example_env AddOnly None [photo_named ''a''] md5_same) ''m1'')
          (idle_runtime fresh_world))) = 2 \<and>
   run_segment (cron_fire (example_env AddOnly None [photo_named ''a''] md5_same) idle_scheduler ''m1'')
       fresh_world
     = ((), snd (executeSync (example_env AddOnly None [photo_named ''a''] md5_same) ''m1'' fresh_world))"
proof -
  let ?e = "example_env AddOnly None [photo_named ''a''] md5_same"
  let ?rt0 = "idle_runtime fresh_world :: unit runtime"
  let ?rt1 = "start (triggerSync ?e ''m1'') ?rt0"
  have rs: "run_starts ?e ''m1''"
    by (simp add: run_starts_def example_env_def getMapping_def getSource_def getDevice_def
        example_mapping_def example_source_def example_device_def)
  have reg: "''m1'' \<in> set (map fst (tasks idle_scheduler))"
    by (simp add: idle_scheduler_def)
  have i0: "in_flight ?rt0 = 0"
    by (simp add: in_flight_def idle_runtime_def)
  have i1: "in_flight ?rt1 = 1"
    using trigger_always_starts_a_run [where e = ?e and mid = "''m1''" and rt = ?rt0] rs i0 by simp
  have a: "in_flight (start (triggerSync ?e ''m1'') ?rt1) = 2"
    using trigger_always_starts_a_run [where e = ?e and mid = "''m1''" and rt = ?rt1] rs i1 by simp
  have b: "in_flight (start (cron_fire ?e idle_scheduler ''m1'') ?rt1) = 2"
    using trigger_always_starts_a_run [where e = ?e and mid = "''m1''" and s = idle_scheduler and rt = ?rt1]
      rs reg i1 by simp
  have c: "run_segment (cron_fire ?e idle_scheduler ''m1'') fresh_world
     = ((), snd (executeSync ?e ''m1'' fresh_world))"
    using trigger_always_starts_a_run [where e = ?e and mid = "''m1''" and s = idle_scheduler
        and w = fresh_world] reg by blast
  show ?thesis using a b c by blast
qed

text \<open>
  C5 as stated fails: a second trigger while a run of \<open>m1\<close> is in flight starts a second
  run of \<open>m1\<close>, and each call gets the result of its own run. When the first call runs
  to its end before the second goes on, the first returns one photo added and the second
  one photo skipped. When the two calls go on in turns, both find the remote path empty,
  both push the photo and both insert its ledger entry, the second insert replacing the
  first (the one row left has the second generated id): each returns one photo added. Two
  calls of \<open>triggerSync\<close> do the same to the world and return nothing.
\<close>

theorem single_flight_counterexample:
  "in_flight two_runs = 2 \<and>
   map (map_option (\<lambda>r. (photosAdded r, photosSkipped r)) \<circ> outcome)
     (calls (resume_all (replicate 11 0 @ replicate 10 1) two_runs)) = [Some (1, 0), Some (0, 1)] \<and>
   map (map_option (\<lambda>r. (photosAdded r, photosSkipped r)) \<circ> outcome)
     (calls (resume_all (concat (replicate 11 [0, 1])) two_runs)) = [Some (1, 0), Some (1, 0)] \<and>
   map row_id (synced_photos (world_now (resume_all (concat (replicate 11 [0, 1])) two_runs))) = [1] \<and>
   in_flight two_triggers = 2 \<and>
   map outcome (calls (resume_all (concat (replicate 11 [0, 1])) two_triggers)) = [Some (), Some ()] \<and>
   map row_id (synced_photos (world_now (resume_all (concat (replicate 11 [0, 1])) two_triggers))) = [1]"
proof -
  have "in_flight two_runs = 2"
    by code_simp
  moreover have "map (map_option (\<lambda>r. (photosAdded r, photosSkipped r)) \<circ> outcome)
     (calls (resume_all (replicate 11 0 @ replicate 10 1) two_runs)) = [Some (1, 0), Some (0, 1)]"
    by code_simp
  moreover have "map (map_option (\<lambda>r. (photosAdded r, photosSkipped r)) \<circ> outcome)
     (calls (resume_all (concat (replicate 11 [0, 1])) two_runs)) = [Some (1, 0), Some (1, 0)]"
    by code_simp
  moreover have "map row_id (synced_photos (world_now (resume_all (concat (replicate 11 [0, 1])) two_runs))) = [1]"
    by code_simp
  moreover have "in_flight two_triggers = 2"
    by code_simp
  moreover have "map outcome (calls (resume_all (concat (replicate 11 [0, 1])) two_triggers)) = [Some (), Some ()]"
    by code_simp
  moreover have "map row_id (synced_photos (world_now (resume_all (concat (replicate 11 [0, 1])) two_triggers))) = [1]"
    by code_simp
  ultimately show ?thesis by blast
qed

text \<open>
  C3, the code at the failing input. Mirror mode, an empty source and one ledger row whose
  remote file exists; the \<open>rm -f\<close> cannot be sent, so \<open>deleteFile\<close> returns false. The
  run records no error, counts one removal and deletes the ledger row, while the file
  stays on the device: no later run will retry it.
\<close>

theorem failed_remote_delete_still_drops_ledger_entry:
  "deleteFile env_rm_fails ''SER'' ''/sdcard/F/0a.jpeg'' world_stale = Inr (False, world_stale) \<and>
   getSyncedPhotos ''m1'' world_stale = [stale_row] \<and>
   errors (fst (executeSync env_rm_fails ''m1'' world_stale)) = [] \<and>
   photosRemoved (fst (executeSync env_rm_fails ''m1'' world_stale)) = 1 \<and>
   getSyncedPhotos ''m1'' (snd (executeSync env_rm_fails ''m1'' world_stale)) = [] \<and>
   device_files (snd (executeSync env_rm_fails ''m1'' world_stale)) ''SER'' ''/sdcard/F/0a.jpeg'' = Some ''0a''"
proof -
  have "deleteFile env_rm_fails ''SER'' ''/sdcard/F/0a.jpeg'' world_stale = Inr (False, world_stale)"
    by (simp add: deleteFile_def shell_def env_rm_fails_def)
  moreover have "getSyncedPhotos ''m1'' world_stale = [stale_row]"
    by (simp add: getSyncedPhotos_def world_stale_def stale_row_def)
  moreover have "errors (fst (executeSync env_rm_fails ''m1'' world_stale)) = []"
    by code_simp
  moreover have "photosRemoved (fst (executeSync env_rm_fails ''m1'' world_stale)) = 1"
    by code_simp
  moreover have "getSyncedPhotos ''m1'' (snd (executeSync env_rm_fails ''m1'' world_stale)) = []"
    by code_simp
  moreover have "device_files (snd (executeSync env_rm_fails ''m1'' world_stale)) ''SER'' ''/sdcard/F/0a.jpeg'' = Some ''0a''"
    by code_simp
  ultimately show ?thesis by blast
qed




text \<open>
  C1, as amended. In mirror mode the removal pass sends a remote delete for every ledger
  entry whose source photo is gone, without looking at the other entries: when two entries
  of the mapping share a remote path and only one of the two photos was removed from the
  source, the shared remote file is deleted (if the delete command goes through) and the
  entry of the surviving photo remains in the ledger.
\<close>

theorem mirror_removal_deletes_shared_file:
  assumes "syncMode mapping = Mirror"
    and "distinct (map row_id (synced_photos w))"
    and "stale \<in> set (getSyncedPhotos mid w)" and "keep \<in> set (getSyncedPhotos mid w)"
    and "devicePath stale = devicePath keep"
    and "sourcePhotoId stale \<notin> set (map photo_id photos)"
    and "sourcePhotoId keep \<in> set (map photo_id photos)"
    and "shell_fault e (serial device) (RmF (devicePath stale)) = None"
  shows "device_files (snd (removal_pass e mapping device photos (getSyncedPhotos mid w) (result, w)))
           (serial device) (devicePath keep) = None \<and>
         keep \<in> set (getSyncedPhotos mid
           (snd (removal_pass e mapping device photos (getSyncedPhotos mid w) (result, w))))"
proof -
  let ?rows = "toRemove photos (getSyncedPhotos mid w)"
  have st: "stale \<in> set ?rows"
    using assms(3,6) by (simp add: toRemove_def)
  have nk: "row_id keep \<notin> row_id ` set ?rows"
  proof
    assume "row_id keep \<in> row_id ` set ?rows"
    then obtain r where r: "r \<in> set ?rows" and eq: "row_id keep = row_id r" by blast
    from r have "r \<in> set (synced_photos w)" and nr: "sourcePhotoId r \<notin> set (map photo_id photos)"
      by (simp_all add: toRemove_def getSyncedPhotos_def)
    moreover have "keep \<in> set (synced_photos w)"
      using assms(4) by (simp add: getSyncedPhotos_def)
    ultimately have "keep = r" using distinct_row_ids [OF assms(2)] eq by blast
    with nr assms(7) show False by simp
  qed
  have kw: "keep \<in> set (synced_photos (snd (result, w)))" and km: "row_mappingId keep = mid"
    using assms(4) by (simp_all add: getSyncedPhotos_def)
  have "keep \<in> set (synced_photos (snd (remove_all e device ?rows (result, w))))"
    using kw nk by (rule remove_all_keeps_row)
  moreover have "device_files (snd (remove_all e device ?rows (result, w))) (serial device) (devicePath stale) = None"
    using st assms(8) by (rule remove_all_deletes)
  ultimately show ?thesis
    using assms(1,5) km by (simp add: removal_pass_def getSyncedPhotos_def)
qed

theorem mirror_removal_deletes_shared_file_witness:
  "device_files (snd (removal_pass (example_env Mirror None [photo_named ''a''] md5_same)
       (example_mapping Mirror None) example_device [photo_named ''a''] [stale_row, kept_row]
       (new_result ''m1'', world_shared))) ''SER'' ''/sdcard/F/0a.jpeg'' = None \<and>
   kept_row \<in> set (getSyncedPhotos ''m1'' (snd (removal_pass (example_env Mirror None [photo_named ''a''] md5_same)
       (example_mapping Mirror None) example_device [photo_named ''a''] [stale_row, kept_row]
       (new_result ''m1'', world_shared))))"
proof -
  have g: "getSyncedPhotos ''m1'' world_shared = [stale_row, kept_row]"
    by (simp add: getSyncedPhotos_def world_shared_def stale_row_def kept_row_def)
  have 1: "syncMode (example_mapping Mirror None) = Mirror"
    by (simp add: example_mapping_def)
  have 2: "distinct (map row_id (synced_photos world_shared))"
    by (simp add: world_shared_def stale_row_def kept_row_def)
  have 3: "stale_row \<in> set (getSyncedPhotos ''m1'' world_shared)"
    and 4: "kept_row \<in> set (getSyncedPhotos ''m1'' world_shared)"
    by (simp_all add: g)
  have 5: "devicePath stale_row = devicePath kept_row"
    by (simp add: stale_row_def kept_row_def)
  have 6: "sourcePhotoId stale_row \<notin> set (map photo_id [photo_named ''a''])"
    and 7: "sourcePhotoId kept_row \<in> set (map photo_id [photo_named ''a''])"
    by (simp_all add: stale_row_def kept_row_def photo_named_def)
  have 8: "shell_fault (example_env Mirror None [photo_named ''a''] md5_same) (serial example_device)
             (RmF (devicePath stale_row)) = None"
    by (simp add: example_env_def)
  have 9: "serial example_device = ''SER''" and 10: "devicePath kept_row = ''/sdcard/F/0a.jpeg''"
    by (simp_all add: example_device_def kept_row_def)
  show ?thesis
    using mirror_removal_deletes_shared_file [OF 1 2 3 4 5 6 7 8, where result = "new_result ''m1''"]
    by (simp only: g 9 10)
qed

text \<open>
  C1 as stated fails: the rows of \<open>x\<close> and \<open>a\<close> share the remote file, the source lists
  only \<open>a\<close>; after the run the row of \<open>a\<close> is still in the ledger and the file it points
  at is gone from the device.
\<close>

theorem mirror_deletes_shared_file_counterexample:
  "getSyncedPhotos ''m1'' world_shared = [stale_row, kept_row] \<and>
   devicePath stale_row = devicePath kept_row \<and>
   device_files world_shared ''SER'' (devicePath kept_row) = Some ''0a'' \<and>
   photosRemoved (fst (executeSync (example_env Mirror None [photo_named ''a''] md5_same) ''m1'' world_shared)) = 1 \<and>
   getSyncedPhotos ''m1'' (snd (executeSync (example_env Mirror None [photo_named ''a''] md5_same) ''m1'' world_shared))
     = [kept_row] \<and>
   device_files (snd (executeSync (example_env Mirror None [photo_named ''a''] md5_same) ''m1'' world_shared))
     ''SER'' (devicePath kept_row) = None"
proof -
  have "getSyncedPhotos ''m1'' world_shared = [stale_row, kept_row]"
    by (simp add: getSyncedPhotos_def world_shared_def stale_row_def kept_row_def)
  moreover have "devicePath stale_row = devicePath kept_row"
    by (simp add: stale_row_def kept_row_def)
  moreover have "device_files world_shared ''SER'' (devicePath kept_row) = Some ''0a''"
    by (simp add: world_shared_def world_one_file_def kept_row_def)
  moreover have "photosRemoved (fst (executeSync (example_env Mirror None [photo_named ''a''] md5_same) ''m1'' world_shared)) = 1"
    by code_simp
  moreover have "getSyncedPhotos ''m1'' (snd (executeSync (example_env Mirror None [photo_named ''a''] md5_same) ''m1'' world_shared))
     = [kept_row]"
    by code_simp
  moreover have "device_files (snd (executeSync (example_env Mirror None [photo_named ''a''] md5_same) ''m1'' world_shared))
     ''SER'' (devicePath kept_row) = None"
    by code_simp
  ultimately show ?thesis by blast
qed



text \<open>
  C8, as amended. With \<open>maxPhotos = n > 0\<close> and a source of more than \<open>n\<close> photos,
  \<open>executeSync\<close> considers exactly the first \<open>n\<close> photos in the order of the source. After
  a run on an empty ledger in which these \<open>n\<close> photos have distinct ids and distinct
  content-derived remote paths that are free on the device, and every push and insert
  succeeds, the run is successful and the ledger holds exactly \<open>n\<close> entries, those of the
  first \<open>n\<close> photos in source order.
\<close>

theorem maxPhotos_keeps_first_n:
  assumes "preflight_ok e mid mapping sourceRecord device sourcePhotos"
    and "update_fault e = None"
    and "maxPhotos mapping = Some n" and "0 < n" and "nat n < length sourcePhotos"
    and "getSyncedPhotos mid w = []"
    and "ids_fresh w"
    and "first = take (nat n) sourcePhotos"
    and "distinct (map photo_id first)"
    and "\<forall>p\<in>set first. pushed e device (temp_dir e mid) p"
    and "distinct (map (photo_target e device (temp_dir e mid)) first)"
    and "\<forall>p\<in>set first. \<forall>t. photo_target e device (temp_dir e mid) p = Some t \<longrightarrow>
           device_files w (serial device) t = None"
    and "\<forall>p\<in>set first. insert_fault e (photo_id p) = None"
  shows "photosToSync mapping sourcePhotos = first \<and>
         success (fst (executeSync e mid w)) \<and>
         photosAdded (fst (executeSync e mid w)) = nat n \<and>
         length (getSyncedPhotos mid (snd (executeSync e mid w))) = nat n \<and>
         map sourcePhotoId (getSyncedPhotos mid (snd (executeSync e mid w))) = map photo_id first"
proof -
  have ps: "photosToSync mapping sourcePhotos = first"
    using assms(3,4,8) by (simp add: photosToSync_def js_slice0_def)
  have h3: "syncMode mapping = Mirror \<longrightarrow>
      toRemove (photosToSync mapping sourcePhotos) (getSyncedPhotos mid w) = []"
    by (simp add: assms(6) toRemove_def)
  have h5: "first = filter (\<lambda>p. photo_id p \<notin> set (map sourcePhotoId (getSyncedPhotos mid w)))
                 (photosToSync mapping sourcePhotos)"
    by (simp add: assms(6) ps)
  have h7: "\<forall>p\<in>set first. prepared e (temp_dir e mid) p \<noteq> None"
    using assms(10) by (auto simp add: pushed_def photo_push_def)
  have all: "filter (pushed e device (temp_dir e mid)) first = first"
    using assms(10) by (simp add: filter_id_conv)
  have none: "filter (\<lambda>p. \<not> pushed e device (temp_dir e mid) p) first = []"
    using assms(10) by (simp add: filter_empty_conv)
  have len: "length first = nat n"
    using assms(5,8) by simp
  note r = executeSync_new_photos [OF assms(1,2) h3 assms(7) h5 assms(9) h7 assms(11,12,13)]
  have "length (map sourcePhotoId (getSyncedPhotos mid (snd (executeSync e mid w)))) = length first"
    using r by (simp add: all assms(6))
  then have "length (getSyncedPhotos mid (snd (executeSync e mid w))) = nat n"
    using len by simp
  then show ?thesis
    using r by (simp add: all none assms(6) ps len)
qed

theorem maxPhotos_keeps_first_n_witness:
  "photosToSync (example_mapping AddOnly (Some 2)) five_photos = [photo_named ''a'', photo_named ''b''] \<and>
   map sourcePhotoId (getSyncedPhotos ''m1''
      (snd (executeSync (example_env AddOnly (Some 2) five_photos md5_by_name) ''m1'' fresh_world)))
     = [''/src/a'', ''/src/b'']"
proof -
  let ?e = "example_env AddOnly (Some 2) five_photos md5_by_name"
  have td: "temp_dir ?e ''m1'' = ''/data/temp/m1''"
    by (simp add: temp_dir_def example_env_def)
  have h1: "preflight_ok ?e ''m1'' (example_mapping AddOnly (Some 2)) example_source example_device five_photos"
    by (rule example_preflight)
  have h2: "update_fault ?e = None"
    by (simp add: example_env_def)
  have h3: "maxPhotos (example_mapping AddOnly (Some 2)) = Some 2" and h4: "(0::int) < 2"
    and h5: "nat 2 < length five_photos"
    by (simp_all add: example_mapping_def five_photos_def)
  have h6: "getSyncedPhotos ''m1'' fresh_world = []" and h7: "ids_fresh fresh_world"
    by (simp_all add: getSyncedPhotos_def ids_fresh_def fresh_world_def)
  have h8: "[photo_named ''a'', photo_named ''b''] = take (nat 2) five_photos"
    by (simp add: five_photos_def numeral_2_eq_2)
  have h9: "distinct (map photo_id [photo_named ''a'', photo_named ''b''])"
    by code_simp
  have h10: "\<forall>p\<in>set [photo_named ''a'', photo_named ''b'']. pushed ?e example_device ''/data/temp/m1'' p"
    by code_simp
  have h11: "distinct (map (photo_target ?e example_device ''/data/temp/m1'') [photo_named ''a'', photo_named ''b''])"
    by code_simp
  have h12: "\<forall>p\<in>set [photo_named ''a'', photo_named ''b''].
      \<forall>t. photo_target ?e example_device ''/data/temp/m1'' p = Some t \<longrightarrow>
           device_files fresh_world (serial example_device) t = None"
    by (simp add: fresh_world_def)
  have h13: "\<forall>p\<in>set [photo_named ''a'', photo_named ''b'']. insert_fault ?e (photo_id p) = None"
    by (simp add: example_env_def)
  have ids: "map photo_id [photo_named ''a'', photo_named ''b''] = [''/src/a'', ''/src/b'']"
    by (simp add: photo_named_def)
  show ?thesis
    using maxPhotos_keeps_first_n
      [OF h1 h2 h3 h4 h5 h6 h7 h8 h9 h10 [folded td] h11 [folded td] h12 [folded td] h13]
    by (simp only: ids)
qed

text \<open>
  C8 as stated fails: \<open>maxPhotos = 2\<close>, three photos, a fresh device, and the first two
  photos have the same bytes. The run is successful and the ledger holds one entry, not
  two: the second photo finds its content on the device and is skipped without an entry.
\<close>

theorem maxPhotos_identical_photos_counterexample:
  "maxPhotos (example_mapping AddOnly (Some 2)) = Some 2 \<and>
   length [photo_named ''a'', photo_named ''b'', photo_named ''c''] = 3 \<and>
   success (fst (executeSync
      (example_env AddOnly (Some 2) [photo_named ''a'', photo_named ''b'', photo_named ''c''] md5_same)
      ''m1'' fresh_world)) \<and>
   map sourcePhotoId (getSyncedPhotos ''m1'' (snd (executeSync
      (example_env AddOnly (Some 2) [photo_named ''a'', photo_named ''b'', photo_named ''c''] md5_same)
      ''m1'' fresh_world))) = [''/src/a'']"
proof -
  have "maxPhotos (example_mapping AddOnly (Some 2)) = Some 2"
    by (simp add: example_mapping_def)
  moreover have "success (fst (executeSync
      (example_env AddOnly (Some 2) [photo_named ''a'', photo_named ''b'', photo_named ''c''] md5_same)
      ''m1'' fresh_world))"
    by code_simp
  moreover have "map sourcePhotoId (getSyncedPhotos ''m1'' (snd (executeSync
      (example_env AddOnly (Some 2) [photo_named ''a'', photo_named ''b'', photo_named ''c''] md5_same)
      ''m1'' fresh_world))) = [''/src/a'']"
    by code_simp
  ultimately show ?thesis by simp
qed

text \<open>
  C2, as amended. For every source photo, not yet in the ledger, whose processed content
  hash already matches the remote file at the derived path, the iteration counts a skip,
  transfers nothing and records no ledger entry. Consequently two photos with identical
  processed bytes, the first of which is pushed to a free path, end with exactly one
  remote file written and exactly one new ledger entry, that of the first photo.
\<close>

theorem content_match_is_skipped_without_ledger_entry:
  "(photo_id q \<notin> set ids \<and>
    photo_digest e tempDir q = Some h \<and> photo_target e device tempDir q = Some t \<and>
    shell_fault e (serial device) (Md5sum t) = None \<and> device_files w (serial device) t = Some h \<and>
    hex_digest h \<and> \<not> js_includes t ''No such file''
    \<longrightarrow>
    fst (sync_photo e device mid tempDir ids q (result, w))
      = result\<lparr>photosSkipped := photosSkipped result + 1\<rparr> \<and>
    synced_photos (snd (sync_photo e device mid tempDir ids q (result, w))) = synced_photos w \<and>
    device_files (snd (sync_photo e device mid tempDir ids q (result, w))) = device_files w)
   \<and>
   (photo_id p \<notin> set ids \<and> photo_id q \<notin> set ids \<and> pushed e device tempDir p \<and>
    photo_digest e tempDir p = Some h \<and> photo_digest e tempDir q = Some h \<and>
    photo_target e device tempDir p = Some t \<and> photo_target e device tempDir q = Some t \<and>
    hex_digest h \<and> \<not> js_includes t ''No such file'' \<and>
    shell_fault e (serial device) (Md5sum t) = None \<and>
    device_files w0 (serial device) t = None \<and>
    insert_fault e (photo_id p) = None \<and> ids_fresh w0 \<and>
    (\<forall>r\<in>set (synced_photos w0). row_mappingId r = mid \<longrightarrow> sourcePhotoId r \<noteq> photo_id p)
    \<longrightarrow>
    photosAdded (fst (sync_photos e device mid tempDir ids [p, q] (result, w0))) = photosAdded result + 1 \<and>
    photosSkipped (fst (sync_photos e device mid tempDir ids [p, q] (result, w0))) = photosSkipped result + 1 \<and>
    errors (fst (sync_photos e device mid tempDir ids [p, q] (result, w0))) = errors result \<and>
    map sourcePhotoId (synced_photos (snd (sync_photos e device mid tempDir ids [p, q] (result, w0))))
      = map sourcePhotoId (synced_photos w0) @ [photo_id p] \<and>
    device_files (snd (sync_photos e device mid tempDir ids [p, q] (result, w0)))
      = (device_files w0)(serial device := (device_files w0 (serial device))(t \<mapsto> h)))"
proof (intro conjI impI)
  assume a: "photo_id q \<notin> set ids \<and>
    photo_digest e tempDir q = Some h \<and> photo_target e device tempDir q = Some t \<and>
    shell_fault e (serial device) (Md5sum t) = None \<and> device_files w (serial device) t = Some h \<and>
    hex_digest h \<and> \<not> js_includes t ''No such file''"
  then have "matches_remote e device tempDir w q"
    unfolding matches_remote_iff by blast
  then obtain tmp where s: "sync_photo e device mid tempDir ids q (result, w)
           = (result\<lparr>photosSkipped := photosSkipped result + 1\<rparr>, w\<lparr>temp_files := tmp\<rparr>)"
    using sync_photo_matching a by blast
  show "fst (sync_photo e device mid tempDir ids q (result, w))
      = result\<lparr>photosSkipped := photosSkipped result + 1\<rparr>"
    and "synced_photos (snd (sync_photo e device mid tempDir ids q (result, w))) = synced_photos w"
    and "device_files (snd (sync_photo e device mid tempDir ids q (result, w))) = device_files w"
    by (simp_all add: s)
next
  assume b: "photo_id p \<notin> set ids \<and> photo_id q \<notin> set ids \<and> pushed e device tempDir p \<and>
    photo_digest e tempDir p = Some h \<and> photo_digest e tempDir q = Some h \<and>
    photo_target e device tempDir p = Some t \<and> photo_target e device tempDir q = Some t \<and>
    hex_digest h \<and> \<not> js_includes t ''No such file'' \<and>
    shell_fault e (serial device) (Md5sum t) = None \<and>
    device_files w0 (serial device) t = None \<and>
    insert_fault e (photo_id p) = None \<and> ids_fresh w0 \<and>
    (\<forall>r\<in>set (synced_photos w0). row_mappingId r = mid \<longrightarrow> sourcePhotoId r \<noteq> photo_id p)"
  then have b1: "photo_id p \<notin> set ids" and b2: "photo_id q \<notin> set ids"
    and b3: "pushed e device tempDir p"
    and b4: "photo_digest e tempDir p = Some h" and b5: "photo_digest e tempDir q = Some h"
    and b6: "photo_target e device tempDir p = Some t" and b7: "photo_target e device tempDir q = Some t"
    and b8: "hex_digest h" and b9: "\<not> js_includes t ''No such file''"
    and b10: "shell_fault e (serial device) (Md5sum t) = None"
    and b11: "device_files w0 (serial device) t = None"
    and b12: "insert_fault e (photo_id p) = None" and b13: "ids_fresh w0"
    and b14: "\<forall>r\<in>set (synced_photos w0). row_mappingId r = mid \<longrightarrow> sourcePhotoId r \<noteq> photo_id p"
    by simp_all
  note r = identical_photos_one_entry [OF b1 b2 b3 b4 b5 b6 b7 b8 b9 b10 b11 b12 b13 b14, of result]
  show "photosAdded (fst (sync_photos e device mid tempDir ids [p, q] (result, w0))) = photosAdded result + 1"
    and "photosSkipped (fst (sync_photos e device mid tempDir ids [p, q] (result, w0))) = photosSkipped result + 1"
    and "errors (fst (sync_photos e device mid tempDir ids [p, q] (result, w0))) = errors result"
    and "map sourcePhotoId (synced_photos (snd (sync_photos e device mid tempDir ids [p, q] (result, w0))))
      = map sourcePhotoId (synced_photos w0) @ [photo_id p]"
    and "device_files (snd (sync_photos e device mid tempDir ids [p, q] (result, w0)))
      = (device_files w0)(serial device := (device_files w0 (serial device))(t \<mapsto> h))"
    using r by simp_all
qed

theorem content_match_is_skipped_without_ledger_entry_witness:
  "photosSkipped (fst (sync_photo (example_env AddOnly None [] md5_same) example_device ''m1''
      ''/data/temp/m1'' [] (photo_named ''b'') (new_result ''m1'', world_one_file))) = 1 \<and>
   synced_photos (snd (sync_photo (example_env AddOnly None [] md5_same) example_device ''m1''
      ''/data/temp/m1'' [] (photo_named ''b'') (new_result ''m1'', world_one_file))) = [] \<and>
   map sourcePhotoId (synced_photos (snd (sync_photos (example_env AddOnly None [] md5_same) example_device
      ''m1'' ''/data/temp/m1'' [] [photo_named ''a'', photo_named ''b''] (new_result ''m1'', fresh_world))))
     = [''/src/a''] \<and>
   device_files (snd (sync_photos (example_env AddOnly None [] md5_same) example_device
      ''m1'' ''/data/temp/m1'' [] [photo_named ''a'', photo_named ''b''] (new_result ''m1'', fresh_world)))
     = (\<lambda>ser. Map.empty)(''SER'' := [''/sdcard/F/0a.jpeg'' \<mapsto> ''0a''])"
proof -
  let ?e = "example_env AddOnly None [] md5_same"
  have a1: "photo_id (photo_named ''a'') \<notin> set []" and b1: "photo_id (photo_named ''b'') \<notin> set []"
    by simp_all
  have a2: "photo_digest ?e ''/data/temp/m1'' (photo_named ''a'') = Some ''0a''"
    and b2: "photo_digest ?e ''/data/temp/m1'' (photo_named ''b'') = Some ''0a''"
    by (simp_all add: photo_digest_def prepared_def example_env_def md5_same_def)
  have a3: "photo_target ?e example_device ''/data/temp/m1'' (photo_named ''a'') = Some ''/sdcard/F/0a.jpeg''"
    and b3: "photo_target ?e example_device ''/data/temp/m1'' (photo_named ''b'') = Some ''/sdcard/F/0a.jpeg''"
    by (simp_all add: photo_target_def prepared_def example_env_def md5_same_def remote_path_def
        example_device_def)
  have a4: "pushed ?e example_device ''/data/temp/m1'' (photo_named ''a'')"
    by (simp add: pushed_def photo_push_def prepared_def example_env_def)
  have s: "shell_fault ?e (serial example_device) (Md5sum ''/sdcard/F/0a.jpeg'') = None"
    and i: "insert_fault ?e (photo_id (photo_named ''a'')) = None"
    by (simp_all add: example_env_def)
  have d1: "device_files world_one_file (serial example_device) ''/sdcard/F/0a.jpeg'' = Some ''0a''"
    and d0: "device_files fresh_world (serial example_device) ''/sdcard/F/0a.jpeg'' = None"
    by (simp_all add: world_one_file_def fresh_world_def example_device_def)
  have hx: "hex_digest ''0a''" and ns: "\<not> js_includes ''/sdcard/F/0a.jpeg'' ''No such file''"
    by (simp_all add: hex_digest_def is_hex_def)
  have f: "ids_fresh fresh_world"
    and l: "\<forall>r\<in>set (synced_photos fresh_world). row_mappingId r = ''m1'' \<longrightarrow>
              sourcePhotoId r \<noteq> photo_id (photo_named ''a'')"
    by (simp_all add: ids_fresh_def fresh_world_def)
  have v: "synced_photos world_one_file = []" "synced_photos fresh_world = []"
    "device_files fresh_world = (\<lambda>ser. Map.empty)" "serial example_device = ''SER''"
    "photo_id (photo_named ''a'') = ''/src/a''" "photosSkipped (new_result ''m1'') = 0"
    by (simp_all add: world_one_file_def fresh_world_def example_device_def photo_named_def new_result_def)
  show ?thesis
    using content_match_is_skipped_without_ledger_entry
      [of "photo_named ''b''" "[]" ?e "''/data/temp/m1''" "''0a''" example_device "''/sdcard/F/0a.jpeg''"
          world_one_file "''m1''" "new_result ''m1''" "photo_named ''a''" fresh_world]
      a1 b1 a2 b2 a3 b3 a4 s i d1 d0 hx ns f l
    by (simp add: v)
qed

text \<open>
  C2 as stated fails: two photos with identical bytes on a fresh device end the run with
  one photo added, one skipped, and a single ledger entry; the skipped photo has none.
\<close>

theorem identical_photos_one_ledger_entry_counterexample:
  "photosSkipped (fst (executeSync (example_env AddOnly None [photo_named ''a'', photo_named ''b''] md5_same)
      ''m1'' fresh_world)) = 1 \<and>
   photosAdded (fst (executeSync (example_env AddOnly None [photo_named ''a'', photo_named ''b''] md5_same)
      ''m1'' fresh_world)) = 1 \<and>
   map sourcePhotoId (getSyncedPhotos ''m1'' (snd (executeSync
      (example_env AddOnly None [photo_named ''a'', photo_named ''b''] md5_same) ''m1'' fresh_world)))
     = [''/src/a'']"
proof -
  have "photosSkipped (fst (executeSync (example_env AddOnly None [photo_named ''a'', photo_named ''b''] md5_same)
      ''m1'' fresh_world)) = 1"
    by code_simp
  moreover have "photosAdded (fst (executeSync (example_env AddOnly None [photo_named ''a'', photo_named ''b''] md5_same)
      ''m1'' fresh_world)) = 1"
    by code_simp
  moreover have "map sourcePhotoId (getSyncedPhotos ''m1'' (snd (executeSync
      (example_env AddOnly None [photo_named ''a'', photo_named ''b''] md5_same) ''m1'' fresh_world)))
     = [''/src/a'']"
    by code_simp
  ultimately show ?thesis by blast
qed




end
